theory Spec2Isabelle
  imports Main "HOL-Library.Word"
begin

section \<open>The discovery orchestrator of psiphon/server/discovery.go\<close>

text \<open>
  The file under verification defines the type \<open>Discovery\<close> of package \<open>server\<close>, its
  constructor \<open>newDiscovery\<close>, the method \<open>reload\<close> and the method \<open>DiscoverServers\<close>.
  Everything else it touches lives in other packages: the tactics parameter cache, the
  psinet database, the package \<open>discovery\<close> with its strategy constructors and its own
  \<open>Discovery\<close> component, \<open>context.WithCancel\<close>, the logger and \<open>sync.RWMutex\<close>.
  Those collaborators are taken as parameters: what each call returns is an input of the
  model, and every call that the orchestrator makes is written to a trace of events, in
  program order.
\<close>

subsection \<open>Constants and plain data\<close>

definition DISCOVERY_STRATEGY_CLASSIC :: string where
  "DISCOVERY_STRATEGY_CLASSIC = ''classic''"

definition DISCOVERY_STRATEGY_CONSISTENT :: string where
  "DISCOVERY_STRATEGY_CONSISTENT = ''consistent''"

text \<open>
  Pointers are addresses. A pointer that may be nil is an \<open>option\<close>. A context made by
  \<open>context.WithCancel\<close> is identified by a number, and so is the \<open>CancelFunc\<close> that
  belongs to it. \<open>net.IP\<close> is a byte slice. The strategy value handed from a strategy
  constructor to \<open>discovery.NewDiscovery\<close> is opaque.
\<close>

type_synonym dref = nat
type_synonym sref = nat
type_synonym cref = nat
type_synonym ctxid = nat
type_synonym DiscoveryStrategy = nat
type_synonym IP = "8 word list"

text \<open>A Go slice is nil or holds elements; ranging over a nil slice runs no iteration.\<close>

datatype 'a slice = NilSlice | Slice "'a list"

fun elems :: "'a slice \<Rightarrow> 'a list" where
  "elems NilSlice = []"
| "elems (Slice xs) = xs"

text \<open>
  Errors: the ones the collaborators return are opaque; \<open>errors.Trace\<close> wraps an error
  and \<open>errors.Tracef\<close> makes one from a formatted message.
\<close>

datatype error = External string | Trace error | Tracef string

datatype panic = NilPointerDereference

datatype 'a result = Panicked panic | Returned 'a

text \<open>
  \<open>psinet.DiscoveryServer\<close>: only the field read by \<open>DiscoverServers\<close>. The tactics
  parameters accessor: \<open>IsNil\<close> holds of \<open>NilParameters\<close>, and \<open>Parameters s\<close> answers
  \<open>s\<close> to \<open>String(parameters.ServerDiscoveryStrategy)\<close>.
\<close>

record DiscoveryServer =
  EncodedServerEntry :: string

datatype ParametersAccessor = NilParameters | Parameters string

subsection \<open>The orchestrator, its support services and the world\<close>

text \<open>
  The struct \<open>Discovery\<close> with its four fields. The embedded \<open>sync.RWMutex\<close> is not a
  field of the record: in the sequential model every call of \<open>Lock\<close>, \<open>Unlock\<close>,
  \<open>RLock\<close> and \<open>RUnlock\<close> is an event of the trace, and in the interleaving model of the
  last section the mutex is part of the shared state.
\<close>

record Discovery =
  support :: "sref option"
  currentStrategy :: string
  discovery :: "cref option"
  cancelFunc :: "ctxid option"

text \<open>
  \<open>SupportServices\<close> is declared outside this file. The record has what \<open>reload\<close> reads
  through \<open>d.support\<close>: the field \<open>discovery\<close> (here \<open>support_discovery\<close>, a pointer to an
  orchestrator, possibly nil), \<open>Config.DiscoveryValueHMACKey\<close>, what
  \<open>ServerTacticsParametersCache.Get(NewGeoIPData())\<close> returns and what
  \<open>PsinetDatabase.GetDiscoveryServers()\<close> returns. The pointers \<open>Config\<close>,
  \<open>ServerTacticsParametersCache\<close> and \<open>PsinetDatabase\<close> themselves are taken to be
  set; the two pointers this file can leave nil, \<open>d.support\<close> and
  \<open>d.support.discovery\<close>, are options and their dereference can panic.
\<close>

record SupportServices =
  support_discovery :: "dref option"
  DiscoveryValueHMACKey :: string
  ServerTacticsParametersCache_Get :: "error + ParametersAccessor"
  PsinetDatabase_GetDiscoveryServers :: "DiscoveryServer option slice"

text \<open>
  Package \<open>discovery\<close>: the two strategy constructors and \<open>NewDiscovery\<close>. A Go function
  returning \<open>(value, error)\<close> is a sum, \<open>Inl\<close> the error; so a successful
  \<open>NewDiscovery\<close> returns a component that is not nil, as the package's constructor does.
\<close>

record discovery_pkg =
  NewConsistentHashingDiscovery :: "error + DiscoveryStrategy"
  NewClassicDiscovery :: "string \<Rightarrow> error + DiscoveryStrategy"
  NewDiscovery :: "ctxid \<Rightarrow> DiscoveryServer option slice \<Rightarrow> DiscoveryStrategy \<Rightarrow> error + cref"

text \<open>Every call that leaves the orchestrator, with its outcome where it has one.\<close>

datatype event =
    Ev_Get bool
  | Ev_NewConsistentHashingDiscovery bool
  | Ev_NewClassicDiscovery string bool
  | Ev_WithCancel ctxid
  | Ev_GetDiscoveryServers
  | Ev_NewDiscovery ctxid DiscoveryStrategy bool
  | Ev_Cancel ctxid
  | Ev_Lock dref
  | Ev_Unlock dref
  | Ev_RLock dref
  | Ev_RUnlock dref
  | Ev_SelectServers cref IP
  | Ev_Log string

record world =
  heap :: "dref \<Rightarrow> Discovery"
  supports :: "sref \<Rightarrow> SupportServices"
  nextRef :: nat
  nextCtx :: nat
  trace :: "event list"

definition emit :: "event \<Rightarrow> world \<Rightarrow> world" where
  "emit e w = w\<lparr>trace := trace w @ [e]\<rparr>"

definition store :: "dref \<Rightarrow> (Discovery \<Rightarrow> Discovery) \<Rightarrow> world \<Rightarrow> world" where
  "store d f w = w\<lparr>heap := (heap w)(d := f (heap w d))\<rparr>"

subsection \<open>reload\<close>

text \<open>
  Lines 74 to 81: the strategy named by the tactics parameters, \<open>classic\<close> when the
  parameters are nil or the name is empty.
\<close>

definition target_strategy :: "ParametersAccessor \<Rightarrow> string" where
  "target_strategy p =
     (let strategy = (case p of NilParameters \<Rightarrow> '''' | Parameters s \<Rightarrow> s)
      in if strategy = '''' then DISCOVERY_STRATEGY_CLASSIC else strategy)"

text \<open>
  Lines 109 to 146: a fresh cancelable context, the new component, and under the write
  lock the cancellation of the previous component followed by the three assignments.
\<close>

definition reload_set ::
  "discovery_pkg \<Rightarrow> SupportServices \<Rightarrow> string \<Rightarrow> DiscoveryStrategy \<Rightarrow> dref \<Rightarrow> world
   \<Rightarrow> error option result \<times> world" where
  "reload_set pkg svc strategy discoveryStrategy d w =
     (let ctx = nextCtx w;
          w1 = emit (Ev_WithCancel ctx) (w\<lparr>nextCtx := Suc ctx\<rparr>);
          servers = PsinetDatabase_GetDiscoveryServers svc;
          w2 = emit Ev_GetDiscoveryServers w1
      in case NewDiscovery pkg ctx servers discoveryStrategy of
           Inl err \<Rightarrow>
             (Returned (Some (Trace err)),
              emit (Ev_Cancel ctx) (emit (Ev_NewDiscovery ctx discoveryStrategy False) w2))
         | Inr disc \<Rightarrow>
             (let w3 = emit (Ev_Lock d) (emit (Ev_NewDiscovery ctx discoveryStrategy True) w2);
                  w4 = (case cancelFunc (heap w3 d) of
                          None \<Rightarrow> w3
                        | Some previous \<Rightarrow> emit (Ev_Cancel previous) w3);
                  w5 = store d (\<lambda>r. r\<lparr>discovery := Some disc\<rparr>) w4;
                  w6 = store d (\<lambda>r. r\<lparr>cancelFunc := Some ctx\<rparr>) w5;
                  w7 = store d (\<lambda>r. r\<lparr>currentStrategy := strategy\<rparr>) w6;
                  w8 = emit (Ev_Unlock d) w7;
                  w9 = emit (Ev_Log (''using '' @ strategy @ '' discovery'')) w8
              in (Returned None, w9)))"

text \<open>Lines 92 to 107: the strategy for the target name, or the error for an unknown name.\<close>

definition reload_init ::
  "discovery_pkg \<Rightarrow> SupportServices \<Rightarrow> string \<Rightarrow> dref \<Rightarrow> world
   \<Rightarrow> error option result \<times> world" where
  "reload_init pkg svc strategy d w =
     (if strategy = DISCOVERY_STRATEGY_CONSISTENT then
        (case NewConsistentHashingDiscovery pkg of
           Inl err \<Rightarrow>
             (Returned (Some (Trace err)), emit (Ev_NewConsistentHashingDiscovery False) w)
         | Inr discoveryStrategy \<Rightarrow>
             reload_set pkg svc strategy discoveryStrategy d
               (emit (Ev_NewConsistentHashingDiscovery True) w))
      else if strategy = DISCOVERY_STRATEGY_CLASSIC then
        (case NewClassicDiscovery pkg (DiscoveryValueHMACKey svc) of
           Inl err \<Rightarrow>
             (Returned (Some (Trace err)),
              emit (Ev_NewClassicDiscovery (DiscoveryValueHMACKey svc) False) w)
         | Inr discoveryStrategy \<Rightarrow>
             reload_set pkg svc strategy discoveryStrategy d
               (emit (Ev_NewClassicDiscovery (DiscoveryValueHMACKey svc) True) w))
      else (Returned (Some (Tracef (''unknown strategy '' @ strategy))), w))"

text \<open>
  Lines 65 to 87: the receiver reads its \<open>support\<close> pointer, fetches the tactics
  parameters, computes the target name and, when \<open>reloadedTactics\<close> is set, compares it
  with \<open>d.support.discovery.currentStrategy\<close>. Go evaluates \<open>&&\<close> from the left, so
  \<open>d.support.discovery\<close> is dereferenced only when \<open>reloadedTactics\<close> is set.
\<close>

definition reload :: "discovery_pkg \<Rightarrow> bool \<Rightarrow> dref \<Rightarrow> world \<Rightarrow> error option result \<times> world" where
  "reload pkg reloadedTactics d w =
     (case support (heap w d) of
        None \<Rightarrow> (Panicked NilPointerDereference, w)
      | Some s \<Rightarrow>
          (let svc = supports w s
           in case ServerTacticsParametersCache_Get svc of
                Inl err \<Rightarrow> (Returned (Some (Trace err)), emit (Ev_Get False) w)
              | Inr p \<Rightarrow>
                  (let w1 = emit (Ev_Get True) w;
                       strategy = target_strategy p
                   in if reloadedTactics then
                        (case support_discovery svc of
                           None \<Rightarrow> (Panicked NilPointerDereference, w1)
                         | Some sd \<Rightarrow>
                             if currentStrategy (heap w1 sd) = strategy
                             then (Returned None, w1)
                             else reload_init pkg svc strategy d w1)
                      else reload_init pkg svc strategy d w1)))"

subsection \<open>newDiscovery\<close>

text \<open>
  Lines 48 to 60: a new orchestrator with only \<open>support\<close> set, then \<open>reload(false)\<close>.
  The result is the pair \<open>(*Discovery, error)\<close>.
\<close>

definition newDiscovery ::
  "discovery_pkg \<Rightarrow> sref option \<Rightarrow> world \<Rightarrow> (dref option \<times> error option) result \<times> world" where
  "newDiscovery pkg support_ptr w =
     (let d = nextRef w;
          w1 = w\<lparr>heap := (heap w)(d := \<lparr>support = support_ptr, currentStrategy = '''',
                                       discovery = None, cancelFunc = None\<rparr>),
                 nextRef := Suc d\<rparr>
      in case reload pkg False d w1 of
           (Panicked p, w2) \<Rightarrow> (Panicked p, w2)
         | (Returned (Some err), w2) \<Rightarrow> (Returned (None, Some (Trace err)), w2)
         | (Returned None, w2) \<Rightarrow> (Returned (Some d, None), w2))"

subsection \<open>DiscoverServers\<close>

text \<open>
  Lines 158 to 162: the loop appends \<open>server.EncodedServerEntry\<close> for every server of
  the selection, in order. The elements are pointers, so a nil element panics.
\<close>

fun encode_loop :: "DiscoveryServer option list \<Rightarrow> string list \<Rightarrow> string list result" where
  "encode_loop [] encodedServerEntries = Returned encodedServerEntries"
| "encode_loop (None # servers) encodedServerEntries = Panicked NilPointerDereference"
| "encode_loop (Some server # servers) encodedServerEntries =
     encode_loop servers (encodedServerEntries @ [EncodedServerEntry server])"

text \<open>
  Lines 151 to 165. \<open>SelectServers\<close> is a method of the component of package
  \<open>discovery\<close>; what it answers is the parameter \<open>select\<close>. A nil component panics there.
  The deferred \<open>RUnlock\<close> runs on every way out, also when the body panics.
\<close>

definition DiscoverServers ::
  "(cref \<Rightarrow> IP \<Rightarrow> DiscoveryServer option slice) \<Rightarrow> dref \<Rightarrow> IP \<Rightarrow> world
   \<Rightarrow> string slice result \<times> world" where
  "DiscoverServers select d clientIP w =
     (let w1 = emit (Ev_RLock d) w
      in case discovery (heap w1 d) of
           None \<Rightarrow> (Panicked NilPointerDereference, emit (Ev_RUnlock d) w1)
         | Some c \<Rightarrow>
             (let servers = select c clientIP;
                  w2 = emit (Ev_SelectServers c clientIP) w1
              in case encode_loop (elems servers) [] of
                   Panicked p \<Rightarrow> (Panicked p, emit (Ev_RUnlock d) w2)
                 | Returned encodedServerEntries \<Rightarrow>
                     (Returned (Slice encodedServerEntries), emit (Ev_RUnlock d) w2)))"

subsection \<open>Observations on traces\<close>

text \<open>
  The events a call added to the trace. The write-lock phase of an orchestrator along a
  list of events, and every cancellation with the phase it happened in. A constructor
  call that returned an error. The two strategy names \<open>reload\<close> knows, the constructor
  it calls for each and the event that call leaves. An orchestrator is initialized when
  its component and its cancellation handle are not nil. The orchestrator state is the
  same in two worlds when the three fields of the receiver, the whole heap and the
  support services are equal.
\<close>

definition emitted :: "world \<Rightarrow> world \<Rightarrow> event list" where
  "emitted w w' = drop (length (trace w)) (trace w')"

datatype phase = NotYetLocked | Held | Released

fun cancellations :: "dref \<Rightarrow> phase \<Rightarrow> event list \<Rightarrow> (phase \<times> ctxid) list" where
  "cancellations d ph [] = []"
| "cancellations d ph (Ev_Lock a # es) = cancellations d (if a = d then Held else ph) es"
| "cancellations d ph (Ev_Unlock a # es) = cancellations d (if a = d then Released else ph) es"
| "cancellations d ph (Ev_Cancel h # es) = (ph, h) # cancellations d ph es"
| "cancellations d ph (_ # es) = cancellations d ph es"

fun failed_construction :: "event \<Rightarrow> bool" where
  "failed_construction (Ev_NewConsistentHashingDiscovery ok) = (\<not> ok)"
| "failed_construction (Ev_NewClassicDiscovery key ok) = (\<not> ok)"
| "failed_construction (Ev_NewDiscovery ctx s ok) = (\<not> ok)"
| "failed_construction _ = False"

definition recognized :: "string \<Rightarrow> bool" where
  "recognized name =
     (name = DISCOVERY_STRATEGY_CLASSIC \<or> name = DISCOVERY_STRATEGY_CONSISTENT)"

definition strategy_call ::
  "discovery_pkg \<Rightarrow> SupportServices \<Rightarrow> string \<Rightarrow> error + DiscoveryStrategy" where
  "strategy_call pkg svc strategy =
     (if strategy = DISCOVERY_STRATEGY_CONSISTENT then NewConsistentHashingDiscovery pkg
      else NewClassicDiscovery pkg (DiscoveryValueHMACKey svc))"

definition strategy_event :: "SupportServices \<Rightarrow> string \<Rightarrow> bool \<Rightarrow> event" where
  "strategy_event svc strategy ok =
     (if strategy = DISCOVERY_STRATEGY_CONSISTENT then Ev_NewConsistentHashingDiscovery ok
      else Ev_NewClassicDiscovery (DiscoveryValueHMACKey svc) ok)"

definition initialized :: "dref \<Rightarrow> world \<Rightarrow> bool" where
  "initialized a w = (discovery (heap w a) \<noteq> None \<and> cancelFunc (heap w a) \<noteq> None)"

definition same_state :: "dref \<Rightarrow> world \<Rightarrow> world \<Rightarrow> bool" where
  "same_state d w w' =
     (discovery (heap w' d) = discovery (heap w d) \<and>
      currentStrategy (heap w' d) = currentStrategy (heap w d) \<and>
      cancelFunc (heap w' d) = cancelFunc (heap w d) \<and>
      heap w' = heap w \<and> supports w' = supports w)"

definition known_names :: "world \<Rightarrow> bool" where
  "known_names w =
     (\<forall>a. currentStrategy (heap w a) = '''' \<or> recognized (currentStrategy (heap w a)))"

subsection \<open>Queries racing one reload\<close>

text \<open>
  The interleaving model. One goroutine is inside \<open>reload\<close> at line 124, with the new
  component, the new cancel function and the target name in its locals; any number of
  goroutines call \<open>DiscoverServers\<close>. Every access to the three fields of the
  orchestrator happens under its mutex, so the program has no data race and its
  executions are the interleavings of its statements. A step runs one statement of one
  goroutine. The \<open>sync.RWMutex\<close> is a write flag and a count of read locks: \<open>Lock\<close>
  waits until neither is set, \<open>RLock\<close> waits while the write flag is set, and a
  goroutine that waits does not move when it is scheduled. A schedule is any list of
  goroutine names; \<open>run\<close> executes it.

  The program counters name the statement to run next: lines 124, 132, 136, 137, 138 and
  140 of \<open>reload\<close>; lines 153, 156, 158 to 162 and the deferred \<open>RUnlock\<close> of
  \<open>DiscoverServers\<close>.
\<close>

datatype reload_pc =
  At_Lock | At_Cancel | At_SetDiscovery | At_SetCancelFunc | At_SetStrategy | At_Unlock
  | Reload_Done

datatype query_pc = At_RLock | At_SelectServers | At_Encode | At_RUnlock | Query_Done

record query =
  q_pc :: query_pc
  q_clientIP :: IP
  q_servers :: "DiscoveryServer option slice"
  q_returned :: "string slice result option"

record system =
  orch :: Discovery
  write_locked :: bool
  read_locks :: nat
  r_pc :: reload_pc
  new_discovery :: cref
  new_cancelFunc :: ctxid
  new_strategy :: string
  cancel_calls :: "ctxid list"
  queries :: "query list"

datatype thread = Reloader | Query nat

definition reload_step :: "system \<Rightarrow> system" where
  "reload_step s =
     (case r_pc s of
        At_Lock \<Rightarrow>
          if write_locked s \<or> 0 < read_locks s then s
          else s\<lparr>write_locked := True, r_pc := At_Cancel\<rparr>
      | At_Cancel \<Rightarrow>
          s\<lparr>cancel_calls := cancel_calls s @
               (case cancelFunc (orch s) of None \<Rightarrow> [] | Some previous \<Rightarrow> [previous]),
            r_pc := At_SetDiscovery\<rparr>
      | At_SetDiscovery \<Rightarrow>
          s\<lparr>orch := (orch s)\<lparr>discovery := Some (new_discovery s)\<rparr>, r_pc := At_SetCancelFunc\<rparr>
      | At_SetCancelFunc \<Rightarrow>
          s\<lparr>orch := (orch s)\<lparr>cancelFunc := Some (new_cancelFunc s)\<rparr>, r_pc := At_SetStrategy\<rparr>
      | At_SetStrategy \<Rightarrow>
          s\<lparr>orch := (orch s)\<lparr>currentStrategy := new_strategy s\<rparr>, r_pc := At_Unlock\<rparr>
      | At_Unlock \<Rightarrow> s\<lparr>write_locked := False, r_pc := Reload_Done\<rparr>
      | Reload_Done \<Rightarrow> s)"

definition query_step ::
  "(cref \<Rightarrow> IP \<Rightarrow> DiscoveryServer option slice) \<Rightarrow> nat \<Rightarrow> system \<Rightarrow> system" where
  "query_step select i s =
     (if i < length (queries s) then
        (let q = queries s ! i
         in case q_pc q of
              At_RLock \<Rightarrow>
                if write_locked s then s
                else s\<lparr>read_locks := Suc (read_locks s),
                       queries := (queries s)[i := q\<lparr>q_pc := At_SelectServers\<rparr>]\<rparr>
            | At_SelectServers \<Rightarrow>
                (case discovery (orch s) of
                   None \<Rightarrow>
                     s\<lparr>queries := (queries s)
                          [i := q\<lparr>q_returned := Some (Panicked NilPointerDereference),
                                  q_pc := At_RUnlock\<rparr>]\<rparr>
                 | Some c \<Rightarrow>
                     s\<lparr>queries := (queries s)
                          [i := q\<lparr>q_servers := select c (q_clientIP q), q_pc := At_Encode\<rparr>]\<rparr>)
            | At_Encode \<Rightarrow>
                s\<lparr>queries := (queries s)
                     [i := q\<lparr>q_returned :=
                               Some (case encode_loop (elems (q_servers q)) [] of
                                       Panicked p \<Rightarrow> Panicked p
                                     | Returned encodedServerEntries \<Rightarrow>
                                         Returned (Slice encodedServerEntries)),
                             q_pc := At_RUnlock\<rparr>]\<rparr>
            | At_RUnlock \<Rightarrow>
                s\<lparr>read_locks := read_locks s - 1,
                  queries := (queries s)[i := q\<lparr>q_pc := Query_Done\<rparr>]\<rparr>
            | Query_Done \<Rightarrow> s)
      else s)"

fun step :: "(cref \<Rightarrow> IP \<Rightarrow> DiscoveryServer option slice) \<Rightarrow> thread \<Rightarrow> system \<Rightarrow> system" where
  "step select Reloader s = reload_step s"
| "step select (Query i) s = query_step select i s"

fun run :: "(cref \<Rightarrow> IP \<Rightarrow> DiscoveryServer option slice) \<Rightarrow> thread list \<Rightarrow> system \<Rightarrow> system" where
  "run select [] s = s"
| "run select (t # schedule) s = run select schedule (step select t s)"

text \<open>
  The start of a race: the orchestrator as it was, the mutex free, the reloader in front
  of \<open>Lock\<close> and one query per client address in front of \<open>RLock\<close>. The orchestrator
  after the whole swap. A query holds the read lock between its \<open>RLock\<close> and its
  \<open>RUnlock\<close>. What \<open>DiscoverServers\<close> answers from a given component reference.
\<close>

definition start :: "Discovery \<Rightarrow> cref \<Rightarrow> ctxid \<Rightarrow> string \<Rightarrow> IP list \<Rightarrow> system" where
  "start before c ctx strategy ips =
     \<lparr>orch = before, write_locked = False, read_locks = 0, r_pc = At_Lock,
      new_discovery = c, new_cancelFunc = ctx, new_strategy = strategy, cancel_calls = [],
      queries = map (\<lambda>ip. \<lparr>q_pc = At_RLock, q_clientIP = ip, q_servers = NilSlice,
                            q_returned = None\<rparr>) ips\<rparr>"

definition swapped :: "Discovery \<Rightarrow> cref \<Rightarrow> ctxid \<Rightarrow> string \<Rightarrow> Discovery" where
  "swapped before c ctx strategy =
     before\<lparr>discovery := Some c, cancelFunc := Some ctx, currentStrategy := strategy\<rparr>"

definition holds_read :: "query \<Rightarrow> bool" where
  "holds_read q = (q_pc q = At_SelectServers \<or> q_pc q = At_Encode \<or> q_pc q = At_RUnlock)"

definition answer ::
  "(cref \<Rightarrow> IP \<Rightarrow> DiscoveryServer option slice) \<Rightarrow> cref option \<Rightarrow> IP \<Rightarrow> string slice result" where
  "answer select component clientIP =
     (case component of
        None \<Rightarrow> Panicked NilPointerDereference
      | Some c \<Rightarrow>
          (case encode_loop (elems (select c clientIP)) [] of
             Panicked p \<Rightarrow> Panicked p
           | Returned encodedServerEntries \<Rightarrow> Returned (Slice encodedServerEntries)))"

text \<open>
  The invariant of the race: the write flag is set exactly while the reloader is between
  \<open>Lock\<close> and \<open>Unlock\<close>, the count of read locks is the number of queries holding
  one, the two exclude each other, the fields are those of the stage the reloader has
  reached, and every query has seen the old or the new component only.
\<close>

fun stage :: "Discovery \<Rightarrow> cref \<Rightarrow> ctxid \<Rightarrow> string \<Rightarrow> reload_pc \<Rightarrow> Discovery" where
  "stage before c ctx strategy At_SetCancelFunc = before\<lparr>discovery := Some c\<rparr>"
| "stage before c ctx strategy At_SetStrategy =
     before\<lparr>discovery := Some c, cancelFunc := Some ctx\<rparr>"
| "stage before c ctx strategy At_Unlock = swapped before c ctx strategy"
| "stage before c ctx strategy Reload_Done = swapped before c ctx strategy"
| "stage before c ctx strategy pc = before"

definition query_ok ::
  "(cref \<Rightarrow> IP \<Rightarrow> DiscoveryServer option slice) \<Rightarrow> Discovery \<Rightarrow> cref \<Rightarrow> IP \<Rightarrow> query \<Rightarrow> bool" where
  "query_ok select before c ip q =
     (q_clientIP q = ip \<and>
      (case q_pc q of
         At_RLock \<Rightarrow> q_returned q = None
       | At_SelectServers \<Rightarrow> q_returned q = None
       | At_Encode \<Rightarrow>
           q_returned q = None \<and>
           ((\<exists>x. discovery before = Some x \<and> q_servers q = select x ip) \<or>
            q_servers q = select c ip)
       | At_RUnlock \<Rightarrow>
           q_returned q = Some (answer select (discovery before) ip) \<or>
           q_returned q = Some (answer select (Some c) ip)
       | Query_Done \<Rightarrow>
           q_returned q = Some (answer select (discovery before) ip) \<or>
           q_returned q = Some (answer select (Some c) ip)))"

definition sys_inv ::
  "(cref \<Rightarrow> IP \<Rightarrow> DiscoveryServer option slice) \<Rightarrow> Discovery \<Rightarrow> cref \<Rightarrow> ctxid \<Rightarrow> string
   \<Rightarrow> IP list \<Rightarrow> system \<Rightarrow> bool" where
  "sys_inv select before c ctx strategy ips s =
     ((write_locked s \<longleftrightarrow> r_pc s \<noteq> At_Lock \<and> r_pc s \<noteq> Reload_Done) \<and>
      read_locks s = length (filter holds_read (queries s)) \<and>
      (write_locked s \<longrightarrow> read_locks s = 0) \<and>
      orch s = stage before c ctx strategy (r_pc s) \<and>
      new_discovery s = c \<and> new_cancelFunc s = ctx \<and> new_strategy s = strategy \<and>
      length (queries s) = length ips \<and>
      (\<forall>i < length ips. query_ok select before c (ips ! i) (queries s ! i)))"

subsection \<open>Concrete worlds\<close>

text \<open>
  Collaborators that always succeed, collaborators whose strategy constructors fail,
  collaborators whose component constructor fails, support services with two servers, a
  world before
  any orchestrator exists, a world in which orchestrator 0 runs the classic strategy and
  is the one the support services hold, and a world with two orchestrators where the
  support services hold the other one.
\<close>

definition example_pkg :: discovery_pkg where
  "example_pkg = \<lparr>NewConsistentHashingDiscovery = Inr 1,
                   NewClassicDiscovery = (\<lambda>key. Inr 2),
                   NewDiscovery = (\<lambda>ctx servers discoveryStrategy. Inr (100 + ctx))\<rparr>"

definition failing_strategy_pkg :: discovery_pkg where
  "failing_strategy_pkg =
     \<lparr>NewConsistentHashingDiscovery = Inl (External ''ring''),
      NewClassicDiscovery = (\<lambda>key. Inl (External ''key'')),
      NewDiscovery = (\<lambda>ctx servers discoveryStrategy. Inr (100 + ctx))\<rparr>"

definition failing_component_pkg :: discovery_pkg where
  "failing_component_pkg =
     \<lparr>NewConsistentHashingDiscovery = Inr 1,
      NewClassicDiscovery = (\<lambda>key. Inr 2),
      NewDiscovery = (\<lambda>ctx servers discoveryStrategy. Inl (External ''component''))\<rparr>"

definition example_services :: "dref option \<Rightarrow> error + ParametersAccessor \<Rightarrow> SupportServices" where
  "example_services registered tactics =
     \<lparr>support_discovery = registered,
      DiscoveryValueHMACKey = ''key'',
      ServerTacticsParametersCache_Get = tactics,
      PsinetDatabase_GetDiscoveryServers =
        Slice [Some \<lparr>EncodedServerEntry = ''entry-a''\<rparr>, Some \<lparr>EncodedServerEntry = ''entry-b''\<rparr>]\<rparr>"

definition blank :: Discovery where
  "blank = \<lparr>support = None, currentStrategy = '''', discovery = None, cancelFunc = None\<rparr>"

definition empty_world :: "error + ParametersAccessor \<Rightarrow> world" where
  "empty_world tactics =
     \<lparr>heap = (\<lambda>a. blank), supports = (\<lambda>s. example_services None tactics),
      nextRef = 0, nextCtx = 0, trace = []\<rparr>"

definition running_world :: "error + ParametersAccessor \<Rightarrow> world" where
  "running_world tactics =
     \<lparr>heap = (\<lambda>a. blank)
        (0 := \<lparr>support = Some 0, currentStrategy = ''classic'',
               discovery = Some 100, cancelFunc = Some 0\<rparr>),
      supports = (\<lambda>s. example_services (Some 0) tactics),
      nextRef = 1, nextCtx = 1, trace = []\<rparr>"

definition two_orchestrators :: world where
  "two_orchestrators =
     \<lparr>heap = (\<lambda>a. blank)
        (0 := \<lparr>support = Some 0, currentStrategy = ''classic'',
               discovery = Some 100, cancelFunc = Some 0\<rparr>,
         1 := \<lparr>support = Some 0, currentStrategy = ''consistent'',
               discovery = Some 101, cancelFunc = Some 1\<rparr>),
      supports = (\<lambda>s. example_services (Some 1) (Inr NilParameters)),
      nextRef = 2, nextCtx = 2, trace = []\<rparr>"

definition example_select :: "cref \<Rightarrow> IP \<Rightarrow> DiscoveryServer option slice" where
  "example_select c clientIP =
     (if c = 100 then Slice [Some \<lparr>EncodedServerEntry = ''entry-a''\<rparr>,
                            Some \<lparr>EncodedServerEntry = ''entry-b''\<rparr>]
      else NilSlice)"

definition example_before :: Discovery where
  "example_before = \<lparr>support = Some 0, currentStrategy = ''classic'',
                      discovery = Some 100, cancelFunc = Some 0\<rparr>"

definition example_race :: "thread list \<Rightarrow> system" where
  "example_race schedule =
     run example_select schedule
       (start example_before 101 1 ''consistent'' [[10, 0, 0, 1], [10, 0, 0, 2]])"

section \<open>Basic facts\<close>

lemmas strategy_names = DISCOVERY_STRATEGY_CLASSIC_def DISCOVERY_STRATEGY_CONSISTENT_def

lemmas example_defs = example_pkg_def example_services_def blank_def empty_world_def
  running_world_def two_orchestrators_def example_select_def

lemmas reload_defs = reload_def reload_init_def reload_set_def target_strategy_def
  strategy_names Let_def emit_def store_def

lemmas system_defs = example_race_def example_before_def start_def reload_step_def
  query_step_def holds_read_def swapped_def Let_def

lemmas failing_defs = failing_strategy_pkg_def failing_component_pkg_def

lemma emit_simps:
  "heap (emit e w) = heap w" "supports (emit e w) = supports w"
  "nextRef (emit e w) = nextRef w" "nextCtx (emit e w) = nextCtx w"
  "trace (emit e w) = trace w @ [e]"
  by (simp_all add: emit_def)

lemma store_simps:
  "heap (store d f w) = (heap w)(d := f (heap w d))" "supports (store d f w) = supports w"
  "nextRef (store d f w) = nextRef w" "nextCtx (store d f w) = nextCtx w"
  "trace (store d f w) = trace w"
  by (simp_all add: store_def)

lemma emitted_append: "trace w' = trace w @ evs \<Longrightarrow> emitted w w' = evs"
  by (simp add: emitted_def)

lemma emitted_emit [simp]: "emitted w (emit e w) = [e]"
  by (simp add: emitted_def emit_simps)

lemma emitted_self [simp]: "emitted w w = []"
  by (simp add: emitted_def)

lemma failed_construction_strategy_event [simp]:
  "failed_construction (strategy_event svc strategy ok) = (\<not> ok)"
  by (simp add: strategy_event_def)

lemma cancellations_strategy_event [simp]:
  "cancellations d ph (strategy_event svc strategy ok # es) = cancellations d ph es"
  by (simp add: strategy_event_def)

subsection \<open>The paths through reload\<close>

text \<open>The two ways out of \<open>reload_set\<close>, with the whole effect of each.\<close>

lemma reload_set_Inl:
  "NewDiscovery pkg (nextCtx w) (PsinetDatabase_GetDiscoveryServers svc) ds = Inl e \<Longrightarrow>
   reload_set pkg svc strategy ds d w = (r, w') \<Longrightarrow>
     r = Returned (Some (Trace e)) \<and> heap w' = heap w \<and> supports w' = supports w \<and>
     nextRef w' = nextRef w \<and> nextCtx w' = Suc (nextCtx w) \<and>
     trace w' = trace w @ [Ev_WithCancel (nextCtx w), Ev_GetDiscoveryServers,
                           Ev_NewDiscovery (nextCtx w) ds False, Ev_Cancel (nextCtx w)]"
  by (auto simp: reload_set_def Let_def emit_simps)

lemma reload_set_Inr:
  "NewDiscovery pkg (nextCtx w) (PsinetDatabase_GetDiscoveryServers svc) ds = Inr c \<Longrightarrow>
   reload_set pkg svc strategy ds d w = (r, w') \<Longrightarrow>
     r = Returned None \<and>
     heap w' = (heap w)(d := (heap w d)\<lparr>currentStrategy := strategy, discovery := Some c,
                                        cancelFunc := Some (nextCtx w)\<rparr>) \<and>
     supports w' = supports w \<and> nextRef w' = nextRef w \<and> nextCtx w' = Suc (nextCtx w) \<and>
     trace w' = trace w @ [Ev_WithCancel (nextCtx w), Ev_GetDiscoveryServers,
                           Ev_NewDiscovery (nextCtx w) ds True, Ev_Lock d]
                @ (case cancelFunc (heap w d) of None \<Rightarrow> [] | Some h \<Rightarrow> [Ev_Cancel h])
                @ [Ev_Unlock d, Ev_Log (''using '' @ strategy @ '' discovery'')]"
  by (auto simp: reload_set_def Let_def emit_simps store_simps split: option.splits)

lemma reload_set_cases:
  assumes "reload_set pkg svc strategy ds d w = (r, w')"
  shows "(\<exists>e. NewDiscovery pkg (nextCtx w) (PsinetDatabase_GetDiscoveryServers svc) ds = Inl e \<and>
     r = Returned (Some (Trace e)) \<and> heap w' = heap w \<and> supports w' = supports w \<and>
     nextRef w' = nextRef w \<and> nextCtx w' = Suc (nextCtx w) \<and>
     trace w' = trace w @ [Ev_WithCancel (nextCtx w), Ev_GetDiscoveryServers,
                           Ev_NewDiscovery (nextCtx w) ds False, Ev_Cancel (nextCtx w)])
   \<or> (\<exists>c. NewDiscovery pkg (nextCtx w) (PsinetDatabase_GetDiscoveryServers svc) ds = Inr c \<and>
     r = Returned None \<and>
     heap w' = (heap w)(d := (heap w d)\<lparr>currentStrategy := strategy, discovery := Some c,
                                        cancelFunc := Some (nextCtx w)\<rparr>) \<and>
     supports w' = supports w \<and> nextRef w' = nextRef w \<and> nextCtx w' = Suc (nextCtx w) \<and>
     trace w' = trace w @ [Ev_WithCancel (nextCtx w), Ev_GetDiscoveryServers,
                           Ev_NewDiscovery (nextCtx w) ds True, Ev_Lock d]
                @ (case cancelFunc (heap w d) of None \<Rightarrow> [] | Some h \<Rightarrow> [Ev_Cancel h])
                @ [Ev_Unlock d, Ev_Log (''using '' @ strategy @ '' discovery'')])"
proof (cases "NewDiscovery pkg (nextCtx w) (PsinetDatabase_GetDiscoveryServers svc) ds")
  case (Inl e)
  from reload_set_Inl [OF Inl assms] Inl show ?thesis by simp
next
  case (Inr c)
  from reload_set_Inr [OF Inr assms] Inr show ?thesis by simp
qed

text \<open>The three ways out of \<open>reload_init\<close>.\<close>

lemma reload_init_unknown:
  "\<not> recognized strategy \<Longrightarrow>
   reload_init pkg svc strategy d w =
     (Returned (Some (Tracef (''unknown strategy '' @ strategy))), w)"
  by (simp add: reload_init_def recognized_def)

lemma reload_init_Inl:
  "recognized strategy \<Longrightarrow> strategy_call pkg svc strategy = Inl e \<Longrightarrow>
   reload_init pkg svc strategy d w =
     (Returned (Some (Trace e)), emit (strategy_event svc strategy False) w)"
  by (auto simp: reload_init_def recognized_def strategy_call_def strategy_event_def
      DISCOVERY_STRATEGY_CLASSIC_def DISCOVERY_STRATEGY_CONSISTENT_def)

lemma reload_init_Inr:
  "recognized strategy \<Longrightarrow> strategy_call pkg svc strategy = Inr ds \<Longrightarrow>
   reload_init pkg svc strategy d w =
     reload_set pkg svc strategy ds d (emit (strategy_event svc strategy True) w)"
  by (auto simp: reload_init_def recognized_def strategy_call_def strategy_event_def
      DISCOVERY_STRATEGY_CLASSIC_def DISCOVERY_STRATEGY_CONSISTENT_def)

lemma reload_init_cases:
  assumes "reload_init pkg svc strategy d w = (r, w')"
  shows "(\<not> recognized strategy \<and>
            r = Returned (Some (Tracef (''unknown strategy '' @ strategy))) \<and> w' = w)
       \<or> (recognized strategy \<and> (\<exists>e. strategy_call pkg svc strategy = Inl e \<and>
            r = Returned (Some (Trace e)) \<and> w' = emit (strategy_event svc strategy False) w))
       \<or> (recognized strategy \<and> (\<exists>ds. strategy_call pkg svc strategy = Inr ds \<and>
            reload_set pkg svc strategy ds d (emit (strategy_event svc strategy True) w)
              = (r, w')))"
proof (cases "recognized strategy")
  case False
  with assms show ?thesis by (simp add: reload_init_unknown)
next
  case True
  show ?thesis
  proof (cases "strategy_call pkg svc strategy")
    case (Inl e)
    with True assms show ?thesis by (simp add: reload_init_Inl)
  next
    case (Inr ds)
    with True assms show ?thesis by (simp add: reload_init_Inr)
  qed
qed

lemma reload_init_unknown_state:
  assumes "strategy \<noteq> ''classic''" and "strategy \<noteq> ''consistent''"
    and "reload_init pkg svc strategy d v = (r, w')"
  shows "r = Returned (Some (Tracef (''unknown strategy '' @ strategy))) \<and> w' = v"
  using assms by (simp add: reload_init_def strategy_names)

lemma reload_init_consistent_fails:
  assumes "NewConsistentHashingDiscovery pkg = Inl e"
    and "reload_init pkg svc ''consistent'' d v = (r, w')"
  shows "r = Returned (Some (Trace e)) \<and> heap w' = heap v \<and> supports w' = supports v"
  using assms by (auto simp: reload_init_def strategy_names emit_simps)

lemma reload_init_classic_fails:
  assumes "NewClassicDiscovery pkg (DiscoveryValueHMACKey svc) = Inl e"
    and "reload_init pkg svc ''classic'' d v = (r, w')"
  shows "r = Returned (Some (Trace e)) \<and> heap w' = heap v \<and> supports w' = supports v"
  using assms by (auto simp: reload_init_def strategy_names emit_simps)

lemma reload_init_component_fails:
  assumes ctor: "strategy = ''consistent'' \<and> NewConsistentHashingDiscovery pkg = Inr ds \<or>
                 strategy = ''classic'' \<and> NewClassicDiscovery pkg (DiscoveryValueHMACKey svc) = Inr ds"
    and comp: "NewDiscovery pkg (nextCtx v) (PsinetDatabase_GetDiscoveryServers svc) ds = Inl e"
    and run: "reload_init pkg svc strategy d v = (r, w')"
  shows "r = Returned (Some (Trace e)) \<and> heap w' = heap v \<and> supports w' = supports v"
proof -
  from ctor obtain ev where
    "reload_set pkg svc strategy ds d (emit ev v) = (r, w')"
    using run by (auto simp: reload_init_def strategy_names)
  from reload_set_Inl [OF _ this] comp show ?thesis
    by (simp add: emit_simps)
qed

lemma reload_init_component_built:
  assumes ctor: "strategy = ''consistent'' \<and> NewConsistentHashingDiscovery pkg = Inr ds \<or>
                 strategy = ''classic'' \<and> NewClassicDiscovery pkg (DiscoveryValueHMACKey svc) = Inr ds"
    and comp: "NewDiscovery pkg (nextCtx v) (PsinetDatabase_GetDiscoveryServers svc) ds = Inr c"
    and run: "reload_init pkg svc strategy d v = (r, w')"
  shows "r = Returned None"
proof -
  from ctor obtain ev where
    "reload_set pkg svc strategy ds d (emit ev v) = (r, w')"
    using run by (auto simp: reload_init_def strategy_names)
  from reload_set_Inr [OF _ this] comp show ?thesis
    by (simp add: emit_simps)
qed

text \<open>
  The four ways through the head of \<open>reload\<close> when the receiver has its support
  services: the fetch fails, the nil dereference, the short circuit, and the rebuild.
\<close>

lemma reload_cases:
  assumes run: "reload pkg rt d w = (r, w')" and sup: "support (heap w d) = Some s"
  shows "(\<exists>e. ServerTacticsParametersCache_Get (supports w s) = Inl e \<and>
            r = Returned (Some (Trace e)) \<and> w' = emit (Ev_Get False) w)
       \<or> (\<exists>p. ServerTacticsParametersCache_Get (supports w s) = Inr p \<and> rt \<and>
            support_discovery (supports w s) = None \<and>
            r = Panicked NilPointerDereference \<and> w' = emit (Ev_Get True) w)
       \<or> (\<exists>p sd. ServerTacticsParametersCache_Get (supports w s) = Inr p \<and> rt \<and>
            support_discovery (supports w s) = Some sd \<and>
            currentStrategy (heap w sd) = target_strategy p \<and>
            r = Returned None \<and> w' = emit (Ev_Get True) w)
       \<or> (\<exists>p. ServerTacticsParametersCache_Get (supports w s) = Inr p \<and>
            (rt \<longrightarrow> (\<exists>sd. support_discovery (supports w s) = Some sd \<and>
                          currentStrategy (heap w sd) \<noteq> target_strategy p)) \<and>
            reload_init pkg (supports w s) (target_strategy p) d (emit (Ev_Get True) w)
              = (r, w'))"
  using run sup
  by (auto simp: reload_def Let_def emit_simps split: sum.splits option.splits if_splits)

lemma reload_fetch_fails:
  assumes "support (heap w d) = Some s"
    and "ServerTacticsParametersCache_Get (supports w s) = Inl e"
  shows "reload pkg rt d w = (Returned (Some (Trace e)), emit (Ev_Get False) w)"
  using assms by (simp add: reload_def Let_def)

lemma reload_proceeds:
  assumes "support (heap w d) = Some s"
    and "ServerTacticsParametersCache_Get (supports w s) = Inr p"
    and "rt \<longrightarrow> (\<exists>sd. support_discovery (supports w s) = Some sd \<and>
                     currentStrategy (heap w sd) \<noteq> target_strategy p)"
  shows "reload pkg rt d w
           = reload_init pkg (supports w s) (target_strategy p) d (emit (Ev_Get True) w)"
  using assms by (auto simp: reload_def Let_def emit_simps)

text \<open>
  Every error that \<open>reload\<close> returns comes from one of four places and leaves the heap
  and the support services alone; and the same seen in the trace, where a failed
  constructor call is an event.
\<close>

lemma reload_error_classified:
  assumes run: "reload pkg reloadedTactics d w = (Returned (Some err), w')"
  shows "heap w' = heap w \<and> supports w' = supports w \<and>
         discovery (heap w' d) = discovery (heap w d) \<and>
         currentStrategy (heap w' d) = currentStrategy (heap w d) \<and>
         cancelFunc (heap w' d) = cancelFunc (heap w d) \<and>
         (\<exists>s. support (heap w d) = Some s \<and>
           ((\<exists>e. ServerTacticsParametersCache_Get (supports w s) = Inl e \<and> err = Trace e)
          \<or> (\<exists>p. ServerTacticsParametersCache_Get (supports w s) = Inr p \<and>
                 \<not> recognized (target_strategy p) \<and>
                 err = Tracef (''unknown strategy '' @ target_strategy p))
          \<or> (\<exists>p e. ServerTacticsParametersCache_Get (supports w s) = Inr p \<and>
                 target_strategy p = DISCOVERY_STRATEGY_CONSISTENT \<and>
                 NewConsistentHashingDiscovery pkg = Inl e \<and> err = Trace e)
          \<or> (\<exists>p e. ServerTacticsParametersCache_Get (supports w s) = Inr p \<and>
                 target_strategy p = DISCOVERY_STRATEGY_CLASSIC \<and>
                 NewClassicDiscovery pkg (DiscoveryValueHMACKey (supports w s)) = Inl e \<and>
                 err = Trace e)
          \<or> (\<exists>p ds e. ServerTacticsParametersCache_Get (supports w s) = Inr p \<and>
                 NewDiscovery pkg (nextCtx w)
                   (PsinetDatabase_GetDiscoveryServers (supports w s)) ds = Inl e \<and>
                 err = Trace e)))"
proof -
  obtain s where sup: "support (heap w d) = Some s"
    using run by (cases "support (heap w d)") (auto simp: reload_def)
  let ?svc = "supports w s"
  let ?w1 = "emit (Ev_Get True) w"
  from reload_cases [OF run sup]
  consider (fetch) e where "ServerTacticsParametersCache_Get ?svc = Inl e"
      "err = Trace e" "w' = emit (Ev_Get False) w"
    | (init) p where "ServerTacticsParametersCache_Get ?svc = Inr p"
      "reload_init pkg ?svc (target_strategy p) d ?w1 = (Returned (Some err), w')"
    by auto
  then show ?thesis
  proof cases
    case fetch
    with sup show ?thesis by (simp add: emit_simps)
  next
    case init
    from reload_init_cases [OF init(2)]
    consider (unknown) "\<not> recognized (target_strategy p)"
        "err = Tracef (''unknown strategy '' @ target_strategy p)" "w' = ?w1"
      | (ctor) e where "recognized (target_strategy p)"
        "strategy_call pkg ?svc (target_strategy p) = Inl e" "err = Trace e"
        "w' = emit (strategy_event ?svc (target_strategy p) False) ?w1"
      | (comp) ds where "recognized (target_strategy p)"
        "reload_set pkg ?svc (target_strategy p) ds d
           (emit (strategy_event ?svc (target_strategy p) True) ?w1) = (Returned (Some err), w')"
      by auto
    then show ?thesis
    proof cases
      case unknown
      with sup init(1) show ?thesis by (simp add: emit_simps)
    next
      case ctor
      from ctor(1,2) have
        "(target_strategy p = DISCOVERY_STRATEGY_CONSISTENT \<and>
            NewConsistentHashingDiscovery pkg = Inl e)
         \<or> (target_strategy p = DISCOVERY_STRATEGY_CLASSIC \<and>
            NewClassicDiscovery pkg (DiscoveryValueHMACKey ?svc) = Inl e)"
        by (auto simp: recognized_def strategy_call_def strategy_names split: if_splits)
      with sup init(1) ctor(3,4) show ?thesis by (auto simp: emit_simps)
    next
      case comp
      from reload_set_cases [OF comp(2)] obtain e where
        "NewDiscovery pkg (nextCtx w) (PsinetDatabase_GetDiscoveryServers ?svc) ds = Inl e"
        "err = Trace e" "heap w' = heap w" "supports w' = supports w"
        by (auto simp: emit_simps)
      with sup init(1) show ?thesis by auto
    qed
  qed
qed

lemma reload_error_iff_trace:
  assumes run: "reload pkg reloadedTactics d w = (r, w')"
    and sup: "support (heap w d) = Some s"
    and reg: "reloadedTactics \<Longrightarrow>
                \<exists>sd. support_discovery (supports w s) = Some sd \<and>
                     (currentStrategy (heap w sd) = '''' \<or> recognized (currentStrategy (heap w sd)))"
  shows "((\<exists>err. r = Returned (Some err)) \<longleftrightarrow>
            (\<exists>e. ServerTacticsParametersCache_Get (supports w s) = Inl e)
          \<or> (\<exists>name. ServerTacticsParametersCache_Get (supports w s) = Inr (Parameters name) \<and>
                 name \<noteq> '''' \<and> name \<noteq> ''classic'' \<and> name \<noteq> ''consistent'')
          \<or> list_ex failed_construction (emitted w w'))
       \<and> (\<forall>name. ServerTacticsParametersCache_Get (supports w s) = Inr (Parameters name) \<and>
                 name \<noteq> '''' \<and> name \<noteq> ''classic'' \<and> name \<noteq> ''consistent''
              \<longrightarrow> r = Returned (Some (Tracef (''unknown strategy '' @ name))))"
proof -
  let ?svc = "supports w s"
  let ?w1 = "emit (Ev_Get True) w"
  have target_unknown:
    "\<not> recognized (target_strategy p) \<longleftrightarrow>
       (\<exists>name. p = Parameters name \<and> name \<noteq> '''' \<and> name \<noteq> ''classic'' \<and> name \<noteq> ''consistent'')"
    for p
    by (cases p) (auto simp: target_strategy_def recognized_def strategy_names)
  have target_name: "target_strategy (Parameters name) = name" if "name \<noteq> ''''" for name
    using that by (simp add: target_strategy_def)
  have target_nonempty: "target_strategy p \<noteq> ''''" for p
    by (cases p) (auto simp: target_strategy_def strategy_names)
  from reload_cases [OF run sup]
  consider (fetch) e where "ServerTacticsParametersCache_Get ?svc = Inl e"
      "r = Returned (Some (Trace e))" "w' = emit (Ev_Get False) w"
    | (nil) p where "ServerTacticsParametersCache_Get ?svc = Inr p" "reloadedTactics"
      "support_discovery ?svc = None"
    | (same) p sd where "ServerTacticsParametersCache_Get ?svc = Inr p" "reloadedTactics"
      "support_discovery ?svc = Some sd" "currentStrategy (heap w sd) = target_strategy p"
      "r = Returned None" "w' = ?w1"
    | (init) p where "ServerTacticsParametersCache_Get ?svc = Inr p"
      "reload_init pkg ?svc (target_strategy p) d ?w1 = (r, w')"
    by auto
  then show ?thesis
  proof cases
    case fetch
    then show ?thesis by simp
  next
    case nil
    with reg show ?thesis by auto
  next
    case same
    from reg [OF same(2)] same(3,4) target_nonempty [of p]
    have "recognized (target_strategy p)" by auto
    with target_unknown [of p] same(1,5,6) show ?thesis by auto
  next
    case init
    from reload_init_cases [OF init(2)]
    consider (unknown) "\<not> recognized (target_strategy p)"
        "r = Returned (Some (Tracef (''unknown strategy '' @ target_strategy p)))" "w' = ?w1"
      | (ctor) e where "recognized (target_strategy p)"
        "r = Returned (Some (Trace e))"
        "w' = emit (strategy_event ?svc (target_strategy p) False) ?w1"
      | (comp) ds where "recognized (target_strategy p)"
        "reload_set pkg ?svc (target_strategy p) ds d
           (emit (strategy_event ?svc (target_strategy p) True) ?w1) = (r, w')"
      by auto
    then show ?thesis
    proof cases
      case unknown
      from unknown(1) target_unknown [of p] obtain name where
        p: "p = Parameters name" "name \<noteq> ''''" "name \<noteq> ''classic''" "name \<noteq> ''consistent''"
        by auto
      with unknown init(1) target_name [of name] show ?thesis by auto
    next
      case ctor
      have "emitted w w' = [Ev_Get True, strategy_event ?svc (target_strategy p) False]"
        using ctor(3) by (simp add: emitted_def emit_simps)
      with ctor(1,2) init(1) target_unknown [of p] show ?thesis by auto
    next
      case comp
      let ?ev = "strategy_event ?svc (target_strategy p) True"
      from reload_set_cases [OF comp(2)]
      consider (failed) e ctx where "r = Returned (Some (Trace e))"
          "trace w' = trace w @ [Ev_Get True, ?ev, Ev_WithCancel ctx, Ev_GetDiscoveryServers,
                                 Ev_NewDiscovery ctx ds False, Ev_Cancel ctx]"
        | (built) ctx where "r = Returned None"
          "trace w' = trace w @ [Ev_Get True, ?ev, Ev_WithCancel ctx, Ev_GetDiscoveryServers,
                                 Ev_NewDiscovery ctx ds True, Ev_Lock d]
               @ (case cancelFunc (heap w d) of None \<Rightarrow> [] | Some h \<Rightarrow> [Ev_Cancel h])
               @ [Ev_Unlock d, Ev_Log (''using '' @ target_strategy p @ '' discovery'')]"
        by (auto simp: emit_simps)
      then show ?thesis
      proof cases
        case failed
        from emitted_append [OF failed(2)] failed(1) comp(1) init(1) target_unknown [of p]
        show ?thesis by auto
      next
        case built
        from emitted_append [OF built(2)] built(1) comp(1) init(1) target_unknown [of p]
        show ?thesis by (auto split: option.splits)
      qed
    qed
  qed
qed

text \<open>A successful reload that did more than fetch the parameters rebuilt the component.\<close>

lemma reload_rebuilt:
  assumes run: "reload pkg rt d w = (Returned None, w')"
    and more: "emitted w w' \<noteq> [Ev_Get True]"
  shows "\<exists>s p ds c. support (heap w d) = Some s \<and>
           ServerTacticsParametersCache_Get (supports w s) = Inr p \<and>
           recognized (target_strategy p) \<and>
           strategy_call pkg (supports w s) (target_strategy p) = Inr ds \<and>
           NewDiscovery pkg (nextCtx w) (PsinetDatabase_GetDiscoveryServers (supports w s)) ds
             = Inr c \<and>
           heap w' = (heap w)(d := (heap w d)\<lparr>currentStrategy := target_strategy p,
                         discovery := Some c, cancelFunc := Some (nextCtx w)\<rparr>) \<and>
           supports w' = supports w \<and> nextRef w' = nextRef w \<and>
           nextCtx w' = Suc (nextCtx w) \<and>
           emitted w w' =
             [Ev_Get True, strategy_event (supports w s) (target_strategy p) True,
              Ev_WithCancel (nextCtx w), Ev_GetDiscoveryServers,
              Ev_NewDiscovery (nextCtx w) ds True, Ev_Lock d]
             @ (case cancelFunc (heap w d) of None \<Rightarrow> [] | Some h \<Rightarrow> [Ev_Cancel h])
             @ [Ev_Unlock d, Ev_Log (''using '' @ target_strategy p @ '' discovery'')]"
proof -
  obtain s where sup: "support (heap w d) = Some s"
    using run by (cases "support (heap w d)") (auto simp: reload_def)
  let ?svc = "supports w s"
  let ?w1 = "emit (Ev_Get True) w"
  from reload_cases [OF run sup] more
  obtain p where p: "ServerTacticsParametersCache_Get ?svc = Inr p"
      "reload_init pkg ?svc (target_strategy p) d ?w1 = (Returned None, w')"
    by auto
  from reload_init_cases [OF p(2)]
  obtain ds where ds: "recognized (target_strategy p)"
      "strategy_call pkg ?svc (target_strategy p) = Inr ds"
      "reload_set pkg ?svc (target_strategy p) ds d
         (emit (strategy_event ?svc (target_strategy p) True) ?w1) = (Returned None, w')"
    by auto
  from reload_set_cases [OF ds(3)]
  obtain c where c:
      "NewDiscovery pkg (nextCtx w) (PsinetDatabase_GetDiscoveryServers ?svc) ds = Inr c"
      "heap w' = (heap w)(d := (heap w d)\<lparr>currentStrategy := target_strategy p,
                         discovery := Some c, cancelFunc := Some (nextCtx w)\<rparr>)"
      "supports w' = supports w" "nextRef w' = nextRef w" "nextCtx w' = Suc (nextCtx w)"
      "trace w' = trace w @
             [Ev_Get True, strategy_event (supports w s) (target_strategy p) True,
              Ev_WithCancel (nextCtx w), Ev_GetDiscoveryServers,
              Ev_NewDiscovery (nextCtx w) ds True, Ev_Lock d]
             @ (case cancelFunc (heap w d) of None \<Rightarrow> [] | Some h \<Rightarrow> [Ev_Cancel h])
             @ [Ev_Unlock d, Ev_Log (''using '' @ target_strategy p @ '' discovery'')]"
    by (auto simp: emit_simps)
  from emitted_append [OF c(6)] sup p(1) ds(1,2) c(1-5) show ?thesis by blast
qed

text \<open>The heap after \<open>reload\<close>: as before, or with the three fields of the receiver set.\<close>

lemma reload_heap_cases:
  assumes run: "reload pkg rt d w = (r, w')"
  shows "heap w' = heap w \<or>
         (\<exists>p c. r = Returned None \<and> recognized (target_strategy p) \<and>
            heap w' = (heap w)(d := (heap w d)\<lparr>currentStrategy := target_strategy p,
                         discovery := Some c, cancelFunc := Some (nextCtx w)\<rparr>))"
proof (cases "support (heap w d)")
  case None
  with run show ?thesis by (simp add: reload_def)
next
  case (Some s)
  let ?svc = "supports w s"
  let ?w1 = "emit (Ev_Get True) w"
  from reload_cases [OF run Some]
  consider (same) "heap w' = heap w"
    | (init) p where "reload_init pkg ?svc (target_strategy p) d ?w1 = (r, w')"
    by (auto simp: emit_simps)
  then show ?thesis
  proof cases
    case same
    then show ?thesis by simp
  next
    case init
    from reload_init_cases [OF init]
    consider (same) "heap w' = heap w"
      | (comp) ds where "recognized (target_strategy p)"
          "reload_set pkg ?svc (target_strategy p) ds d
             (emit (strategy_event ?svc (target_strategy p) True) ?w1) = (r, w')"
      by (auto simp: emit_simps)
    then show ?thesis
    proof cases
      case same
      then show ?thesis by simp
    next
      case comp
      from reload_set_cases [OF comp(2)]
      consider (same) "heap w' = heap w"
        | (built) c where "r = Returned None"
            "heap w' = (heap w)(d := (heap w d)\<lparr>currentStrategy := target_strategy p,
                           discovery := Some c, cancelFunc := Some (nextCtx w)\<rparr>)"
        by (auto simp: emit_simps)
      then show ?thesis
      proof cases
        case same
        then show ?thesis by simp
      next
        case built
        with comp(1) show ?thesis by blast
      qed
    qed
  qed
qed

lemma reload_error_heap:
  "reload pkg rt d w = (Returned (Some err), w') \<Longrightarrow> heap w' = heap w"
proof -
  assume run: "reload pkg rt d w = (Returned (Some err), w')"
  then obtain s where sup: "support (heap w d) = Some s"
    by (cases "support (heap w d)") (auto simp: reload_def)
  from reload_cases [OF run sup] show ?thesis
    by (auto simp: emit_simps dest!: reload_init_cases reload_set_cases)
qed

lemma reload_initialized:
  assumes run: "reload pkg rt d w = (r, w')" and init: "initialized a w"
  shows "initialized a w'"
proof (cases "support (heap w d)")
  case None
  with run init show ?thesis by (simp add: reload_def)
next
  case (Some s)
  let ?svc = "supports w s"
  let ?w1 = "emit (Ev_Get True) w"
  have keep: "heap v = heap w \<Longrightarrow> initialized a v" for v
    using init by (simp add: initialized_def)
  from reload_cases [OF run Some]
  consider (same) "heap w' = heap w"
    | (init) p where "reload_init pkg ?svc (target_strategy p) d ?w1 = (r, w')"
    by (auto simp: emit_simps)
  then show ?thesis
  proof cases
    case same
    then show ?thesis by (rule keep)
  next
    case init
    from reload_init_cases [OF init]
    consider (same) "heap w' = heap w"
      | (comp) ds where "reload_set pkg ?svc (target_strategy p) ds d
           (emit (strategy_event ?svc (target_strategy p) True) ?w1) = (r, w')"
      by (auto simp: emit_simps)
    then show ?thesis
    proof cases
      case same
      then show ?thesis by (rule keep)
    next
      case comp
      from reload_set_cases [OF comp]
      consider (same) "heap w' = heap w"
        | (built) c f where "heap w' = (heap w)(d := (heap w d)\<lparr>currentStrategy := f,
                         discovery := Some c, cancelFunc := Some (nextCtx w)\<rparr>)"
        by (auto simp: emit_simps)
      then show ?thesis
      proof cases
        case same
        then show ?thesis by (rule keep)
      next
        case built
        with \<open>initialized a w\<close> show ?thesis by (simp add: initialized_def)
      qed
    qed
  qed
qed

lemma newDiscovery_returned:
  assumes "newDiscovery pkg support_ptr w = (Returned (Some d, e), w')"
  shows "d = nextRef w \<and> e = None \<and>
         reload pkg False d
           (w\<lparr>heap := (heap w)(d := \<lparr>support = support_ptr, currentStrategy = '''',
                                     discovery = None, cancelFunc = None\<rparr>),
              nextRef := Suc d\<rparr>) = (Returned None, w')"
  using assms
  by (auto simp: newDiscovery_def Let_def split: prod.splits result.splits option.splits)

text \<open>
  Only \<open>reload\<close> writes \<open>currentStrategy\<close>, and only with a recognized name: in every
  world reached from one where all recorded names are empty or recognized, they still
  are.
\<close>

lemma reload_known_names:
  assumes "known_names w" and "reload pkg rt d w = (r, w')"
  shows "known_names w'"
  unfolding known_names_def
proof
  fix a
  from assms(1) have a: "currentStrategy (heap w a) = [] \<or> recognized (currentStrategy (heap w a))"
    by (simp add: known_names_def)
  from reload_heap_cases [OF assms(2)] a
  show "currentStrategy (heap w' a) = [] \<or> recognized (currentStrategy (heap w' a))"
    by (cases "a = d") auto
qed

lemma newDiscovery_known_names:
  assumes "known_names w" and "newDiscovery pkg support_ptr w = (r, w')"
  shows "known_names w'"
proof -
  let ?w1 = "w\<lparr>heap := (heap w)(nextRef w := \<lparr>support = support_ptr, currentStrategy = '''',
                                     discovery = None, cancelFunc = None\<rparr>),
              nextRef := Suc (nextRef w)\<rparr>"
  have 1: "known_names ?w1"
    using assms(1) by (simp add: known_names_def)
  obtain r1 w1 where run: "reload pkg False (nextRef w) ?w1 = (r1, w1)"
    by (cases "reload pkg False (nextRef w) ?w1")
  from reload_known_names [OF 1 run] have "known_names w1" .
  moreover from assms(2) run have "w' = w1"
    by (auto simp: newDiscovery_def Let_def split: result.splits option.splits)
  ultimately show ?thesis by simp
qed

subsection \<open>The loop of DiscoverServers\<close>

lemma encode_loop_map:
  "encode_loop (map Some servers) acc = Returned (acc @ map EncodedServerEntry servers)"
  by (induction servers arbitrary: acc) simp_all

lemma encode_loop_panic:
  "encode_loop xs acc = Panicked pn \<Longrightarrow> None \<in> set xs"
  by (induction xs acc rule: encode_loop.induct) simp_all

lemma DiscoverServers_answer:
  "fst (DiscoverServers select d clientIP w) = answer select (discovery (heap w d)) clientIP"
  by (simp add: DiscoverServers_def answer_def Let_def emit_simps
           split: option.split result.split)

subsection \<open>The invariant of the race\<close>

lemma holders_update:
  "i < length qs \<Longrightarrow>
   length (filter P (qs[i := q])) + (if P (qs ! i) then 1 else 0)
     = length (filter P qs) + (if P q then 1 else 0)"
proof (induction qs arbitrary: i)
  case Nil
  then show ?case by simp
next
  case (Cons a qs)
  then show ?case by (cases i) auto
qed

lemma holder_counted: "i < length qs \<Longrightarrow> P (qs ! i) \<Longrightarrow> 0 < length (filter P qs)"
  by (metis filter_empty_conv length_greater_0_conv nth_mem)

lemma sys_inv_start: "sys_inv select before c ctx strategy ips (start before c ctx strategy ips)"
  by (simp add: sys_inv_def start_def query_ok_def holds_read_def)

lemma sys_inv_reload_step:
  assumes "sys_inv select before c ctx strategy ips s"
  shows "sys_inv select before c ctx strategy ips (reload_step s)"
  using assms
  by (cases "r_pc s") (auto simp: sys_inv_def reload_step_def swapped_def)

lemma sys_inv_queries_update:
  assumes "sys_inv select before c ctx strategy ips s"
    and "length (filter holds_read qs) = n"
    and "write_locked s \<longrightarrow> n = 0"
    and "length qs = length (queries s)"
    and "\<forall>j<length ips. query_ok select before c (ips ! j) (qs ! j)"
  shows "sys_inv select before c ctx strategy ips (s\<lparr>read_locks := n, queries := qs\<rparr>)"
  using assms unfolding sys_inv_def by auto

lemma sys_inv_query_step:
  assumes I: "sys_inv select before c ctx strategy ips s"
  shows "sys_inv select before c ctx strategy ips (query_step select i s)"
proof (cases "i < length (queries s)")
  case False
  with I show ?thesis by (simp add: query_step_def)
next
  case True
  let ?q = "queries s ! i"
  from I have len: "length (queries s) = length ips"
    and ok: "\<And>j. j < length ips \<Longrightarrow> query_ok select before c (ips ! j) (queries s ! j)"
    and cnt: "read_locks s = length (filter holds_read (queries s))"
    and wl: "write_locked s \<longleftrightarrow> r_pc s \<noteq> At_Lock \<and> r_pc s \<noteq> Reload_Done"
    and excl: "write_locked s \<longrightarrow> read_locks s = 0"
    and st: "orch s = stage before c ctx strategy (r_pc s)"
    unfolding sys_inv_def by blast+
  from True len have i: "i < length ips" by simp
  have okq: "query_ok select before c (ips ! i) ?q" using ok i .
  have others: "\<And>j q'. j < length ips \<Longrightarrow>
      query_ok select before c (ips ! i) q' \<Longrightarrow>
      query_ok select before c (ips ! j) ((queries s)[i := q'] ! j)"
    using ok True by (auto simp: nth_list_update)
  show ?thesis
  proof (cases "q_pc ?q")
    case At_RLock
    show ?thesis
    proof (cases "write_locked s")
      case True
      with At_RLock \<open>i < length (queries s)\<close> I show ?thesis
        by (simp add: query_step_def Let_def)
    next
      case False
      let ?q' = "?q\<lparr>q_pc := At_SelectServers\<rparr>"
      have step: "query_step select i s
                    = s\<lparr>read_locks := Suc (read_locks s), queries := (queries s)[i := ?q']\<rparr>"
        using At_RLock False \<open>i < length (queries s)\<close> by (simp add: query_step_def Let_def)
      have "query_ok select before c (ips ! i) ?q'"
        using okq At_RLock by (simp add: query_ok_def)
      from others [OF _ this]
      have oks: "\<forall>j<length ips. query_ok select before c (ips ! j) ((queries s)[i := ?q'] ! j)"
        by simp
      have "length (filter holds_read ((queries s)[i := ?q'])) = Suc (read_locks s)"
        using holders_update [OF \<open>i < length (queries s)\<close>, of holds_read ?q'] At_RLock cnt
        by (simp add: holds_read_def)
      from sys_inv_queries_update [OF I this _ _ oks] False show ?thesis
        unfolding step by simp
    qed
  next
    case At_SelectServers
    have "holds_read ?q" using At_SelectServers by (simp add: holds_read_def)
    from holder_counted [of i "queries s" holds_read, OF \<open>i < length (queries s)\<close> this] cnt excl
    have "\<not> write_locked s" by auto
    with wl st have whole: "orch s = before \<or> orch s = swapped before c ctx strategy"
      by auto
    show ?thesis
    proof (cases "discovery (orch s)")
      case None
      let ?q' = "?q\<lparr>q_returned := Some (Panicked NilPointerDereference), q_pc := At_RUnlock\<rparr>"
      have step: "query_step select i s = s\<lparr>queries := (queries s)[i := ?q']\<rparr>"
        using At_SelectServers None \<open>i < length (queries s)\<close>
        by (simp add: query_step_def Let_def)
      from None whole have "discovery before = None"
        by (auto simp: swapped_def)
      then have "query_ok select before c (ips ! i) ?q'"
        using okq At_SelectServers by (simp add: query_ok_def answer_def)
      from others [OF _ this]
      have oks: "\<forall>j<length ips. query_ok select before c (ips ! j) ((queries s)[i := ?q'] ! j)"
        by simp
      have "length (filter holds_read ((queries s)[i := ?q'])) = read_locks s"
        using holders_update [OF \<open>i < length (queries s)\<close>, of holds_read ?q'] At_SelectServers cnt
        by (simp add: holds_read_def)
      from sys_inv_queries_update [OF I this excl _ oks] show ?thesis
        unfolding step by simp
    next
      case (Some x)
      let ?q' = "?q\<lparr>q_servers := select x (q_clientIP ?q), q_pc := At_Encode\<rparr>"
      have step: "query_step select i s = s\<lparr>queries := (queries s)[i := ?q']\<rparr>"
        using At_SelectServers Some \<open>i < length (queries s)\<close>
        by (simp add: query_step_def Let_def)
      from Some whole have "discovery before = Some x \<or> x = c"
        by (auto simp: swapped_def)
      then have "query_ok select before c (ips ! i) ?q'"
        using okq At_SelectServers by (auto simp: query_ok_def)
      from others [OF _ this]
      have oks: "\<forall>j<length ips. query_ok select before c (ips ! j) ((queries s)[i := ?q'] ! j)"
        by simp
      have "length (filter holds_read ((queries s)[i := ?q'])) = read_locks s"
        using holders_update [OF \<open>i < length (queries s)\<close>, of holds_read ?q'] At_SelectServers cnt
        by (simp add: holds_read_def)
      from sys_inv_queries_update [OF I this excl _ oks] show ?thesis
        unfolding step by simp
    qed
  next
    case At_Encode
    let ?q' = "?q\<lparr>q_returned :=
                     Some (case encode_loop (elems (q_servers ?q)) [] of
                             Panicked p \<Rightarrow> Panicked p
                           | Returned encodedServerEntries \<Rightarrow>
                               Returned (Slice encodedServerEntries)),
                   q_pc := At_RUnlock\<rparr>"
    have step: "query_step select i s = s\<lparr>queries := (queries s)[i := ?q']\<rparr>"
      using At_Encode \<open>i < length (queries s)\<close> by (simp add: query_step_def Let_def)
    have "query_ok select before c (ips ! i) ?q'"
      using okq At_Encode by (auto simp: query_ok_def answer_def)
    from others [OF _ this]
    have oks: "\<forall>j<length ips. query_ok select before c (ips ! j) ((queries s)[i := ?q'] ! j)"
      by simp
    have "length (filter holds_read ((queries s)[i := ?q'])) = read_locks s"
      using holders_update [OF \<open>i < length (queries s)\<close>, of holds_read ?q'] At_Encode cnt
      by (simp add: holds_read_def)
    from sys_inv_queries_update [OF I this excl _ oks] show ?thesis
      unfolding step by simp
  next
    case At_RUnlock
    let ?q' = "?q\<lparr>q_pc := Query_Done\<rparr>"
    have step: "query_step select i s
                  = s\<lparr>read_locks := read_locks s - 1, queries := (queries s)[i := ?q']\<rparr>"
      using At_RUnlock \<open>i < length (queries s)\<close> by (simp add: query_step_def Let_def)
    have "query_ok select before c (ips ! i) ?q'"
      using okq At_RUnlock by (simp add: query_ok_def)
    from others [OF _ this]
    have oks: "\<forall>j<length ips. query_ok select before c (ips ! j) ((queries s)[i := ?q'] ! j)"
      by simp
    have "length (filter holds_read ((queries s)[i := ?q'])) = read_locks s - 1"
      using holders_update [OF \<open>i < length (queries s)\<close>, of holds_read ?q'] At_RUnlock cnt
      by (simp add: holds_read_def)
    moreover have "write_locked s \<longrightarrow> read_locks s - 1 = 0"
      using excl by simp
    ultimately show ?thesis
      using sys_inv_queries_update [OF I _ _ _ oks, of "read_locks s - 1"]
      unfolding step by simp
  next
    case Query_Done
    with \<open>i < length (queries s)\<close> I show ?thesis
      by (simp add: query_step_def Let_def)
  qed
qed

lemma sys_inv_step:
  "sys_inv select before c ctx strategy ips s \<Longrightarrow>
   sys_inv select before c ctx strategy ips (step select t s)"
  by (cases t) (simp_all add: sys_inv_reload_step sys_inv_query_step)

lemma sys_inv_run:
  "sys_inv select before c ctx strategy ips s \<Longrightarrow>
   sys_inv select before c ctx strategy ips (run select schedule s)"
  by (induction schedule arbitrary: s) (simp_all add: sys_inv_step)

lemma query_step_orch: "orch (query_step select i s) = orch s"
  by (simp add: query_step_def Let_def split: query_pc.split option.split)

text \<open>
  Run alone, the threads of the race do what the sequential model does: six steps of the
  reloader leave the orchestrator that \<open>reload_set\<close> leaves, with the same
  cancellations, and four steps of a query return what \<open>DiscoverServers\<close> returns.
\<close>

lemma reloader_alone:
  assumes "heap w d = before"
    and "NewDiscovery pkg (nextCtx w) (PsinetDatabase_GetDiscoveryServers svc) ds = Inr c"
  shows "orch (run select [Reloader, Reloader, Reloader, Reloader, Reloader, Reloader]
                 (start before c (nextCtx w) strategy ips))
           = heap (snd (reload_set pkg svc strategy ds d w)) d \<and>
         cancel_calls (run select [Reloader, Reloader, Reloader, Reloader, Reloader, Reloader]
                 (start before c (nextCtx w) strategy ips))
           = map snd (cancellations d NotYetLocked
                        (emitted w (snd (reload_set pkg svc strategy ds d w))))"
proof -
  obtain r w' where run: "reload_set pkg svc strategy ds d w = (r, w')"
    by (cases "reload_set pkg svc strategy ds d w")
  from reload_set_Inr [OF assms(2) run]
  have h: "heap w' d = (heap w d)\<lparr>currentStrategy := strategy, discovery := Some c,
                                   cancelFunc := Some (nextCtx w)\<rparr>"
    and t: "emitted w w' = [Ev_WithCancel (nextCtx w), Ev_GetDiscoveryServers,
                           Ev_NewDiscovery (nextCtx w) ds True, Ev_Lock d]
                @ (case cancelFunc (heap w d) of None \<Rightarrow> [] | Some h \<Rightarrow> [Ev_Cancel h])
                @ [Ev_Unlock d, Ev_Log (''using '' @ strategy @ '' discovery'')]"
    by (simp_all add: emitted_def)
  have 1: "orch (run select [Reloader, Reloader, Reloader, Reloader, Reloader, Reloader]
                 (start before c (nextCtx w) strategy ips))
             = before\<lparr>discovery := Some c, cancelFunc := Some (nextCtx w),
                      currentStrategy := strategy\<rparr>"
    by (simp add: start_def reload_step_def)
  have 2: "cancel_calls (run select [Reloader, Reloader, Reloader, Reloader, Reloader, Reloader]
                 (start before c (nextCtx w) strategy ips))
             = (case cancelFunc before of None \<Rightarrow> [] | Some previous \<Rightarrow> [previous])"
    by (simp add: start_def reload_step_def)
  from 1 2 h t run assms(1) show ?thesis
    by (simp split: option.split)
qed

lemma query_alone:
  assumes "heap w d = before"
  shows "q_returned (queries (run select [Query 0, Query 0, Query 0, Query 0]
                               (start before c ctx strategy [ip])) ! 0)
           = Some (fst (DiscoverServers select d ip w))"
  using assms
  by (cases "discovery before")
     (simp_all add: start_def query_step_def Let_def DiscoverServers_answer answer_def)

section \<open>Cancellation of the superseded component\<close>

text \<open>
  C1, as written, says that a successful reload which rebuilds the component invokes the
  previous cancellation handle only after the write lock is released. The code calls it
  at lines 132 to 134, between \<open>d.Lock()\<close> and \<open>d.Unlock()\<close>. In the running world,
  whose orchestrator holds handle 0, a reload to the consistent strategy succeeds and its
  only cancellation is that of handle 0 in phase \<open>Held\<close>, not in phase \<open>Released\<close>.
\<close>

theorem reload_cancel_after_unlock_counterexample:
  "fst (reload example_pkg False 0 (running_world (Inr (Parameters ''consistent''))))
     = Returned None \<and>
   cancelFunc (heap (running_world (Inr (Parameters ''consistent''))) 0) = Some 0 \<and>
   cancellations 0 NotYetLocked
     (emitted (running_world (Inr (Parameters ''consistent'')))
        (snd (reload example_pkg False 0 (running_world (Inr (Parameters ''consistent''))))))
     = [(Held, 0)] \<and>
   cancellations 0 NotYetLocked
     (emitted (running_world (Inr (Parameters ''consistent'')))
        (snd (reload example_pkg False 0 (running_world (Inr (Parameters ''consistent''))))))
     \<noteq> [(Released, 0)]"
  by (simp add: reload_defs example_defs emitted_def)

text \<open>
  C1, amended. In every successful reload that is not short-circuited (one that emitted
  more than the fetch of the tactics parameters), the cancellation handle of the previous
  instance, when there is one, is invoked exactly once and while the write lock of the
  receiver is held: after \<open>Lock\<close> and before \<open>Unlock\<close>. No cancellation happens before
  the lock is taken or after it is released, a first reload with no previous handle
  cancels nothing, and the handle stored afterwards is the fresh one.
\<close>

theorem reload_cancels_previous_under_lock:
  assumes run: "reload pkg reloadedTactics d w = (Returned None, w')"
    and rebuilt: "emitted w w' \<noteq> [Ev_Get True]"
  shows "cancellations d NotYetLocked (emitted w w') =
           (case cancelFunc (heap w d) of None \<Rightarrow> [] | Some previous \<Rightarrow> [(Held, previous)]) \<and>
         cancelFunc (heap w' d) = Some (nextCtx w)"
proof -
  from reload_rebuilt [OF run rebuilt] obtain s p ds c where
    h: "heap w' = (heap w)(d := (heap w d)\<lparr>currentStrategy := target_strategy p,
                         discovery := Some c, cancelFunc := Some (nextCtx w)\<rparr>)"
    and e: "emitted w w' =
             [Ev_Get True, strategy_event (supports w s) (target_strategy p) True,
              Ev_WithCancel (nextCtx w), Ev_GetDiscoveryServers,
              Ev_NewDiscovery (nextCtx w) ds True, Ev_Lock d]
             @ (case cancelFunc (heap w d) of None \<Rightarrow> [] | Some h \<Rightarrow> [Ev_Cancel h])
             @ [Ev_Unlock d, Ev_Log (''using '' @ target_strategy p @ '' discovery'')]"
    by blast
  from h have "cancelFunc (heap w' d) = Some (nextCtx w)" by simp
  moreover from e have "cancellations d NotYetLocked (emitted w w') =
           (case cancelFunc (heap w d) of None \<Rightarrow> [] | Some previous \<Rightarrow> [(Held, previous)])"
    by (simp split: option.split)
  ultimately show ?thesis by simp
qed

theorem reload_cancels_previous_under_lock_witness:
  "reload example_pkg True 0 (running_world (Inr (Parameters ''consistent'')))
     = (Returned None,
        snd (reload example_pkg True 0 (running_world (Inr (Parameters ''consistent''))))) \<and>
   emitted (running_world (Inr (Parameters ''consistent'')))
     (snd (reload example_pkg True 0 (running_world (Inr (Parameters ''consistent'')))))
     \<noteq> [Ev_Get True] \<and>
   cancellations 0 NotYetLocked
     (emitted (running_world (Inr (Parameters ''consistent'')))
        (snd (reload example_pkg True 0 (running_world (Inr (Parameters ''consistent''))))))
     = [(Held, 0)] \<and>
   cancelFunc (heap (snd (reload example_pkg True 0
                            (running_world (Inr (Parameters ''consistent''))))) 0) = Some 1"
proof -
  let ?w = "running_world (Inr (Parameters ''consistent''))"
  have run: "reload example_pkg True 0 ?w = (Returned None, snd (reload example_pkg True 0 ?w))"
    by (simp add: reload_defs example_defs)
  have more: "emitted ?w (snd (reload example_pkg True 0 ?w)) \<noteq> [Ev_Get True]"
    by (simp add: reload_defs example_defs emitted_def)
  have prev: "cancelFunc (heap ?w 0) = Some 0" "nextCtx ?w = 1"
    by (simp_all add: example_defs)
  from reload_cancels_previous_under_lock [OF run more] prev
  have "cancellations 0 NotYetLocked (emitted ?w (snd (reload example_pkg True 0 ?w)))
          = [(Held, 0)] \<and>
        cancelFunc (heap (snd (reload example_pkg True 0 ?w)) 0) = Some 1"
    by simp
  with run more show ?thesis by blast
qed

section \<open>Errors of reload\<close>

text \<open>
  C2. Every error path of \<open>reload\<close> returns an error and leaves the orchestrator state
  as it was. For a receiver with its support services: when the fetch of the tactics
  parameters fails, \<open>reload\<close> returns the trace of that error. When the fetch succeeds
  and the reload is not short-circuited (with \<open>reloadedTactics\<close> set this means that
  \<open>d.support.discovery\<close> is not nil and records another name than the target): a target
  name that is neither \<open>classic\<close> nor \<open>consistent\<close> returns the error
  \<open>unknown strategy\<close>; an error from \<open>NewConsistentHashingDiscovery\<close> or from
  \<open>NewClassicDiscovery\<close>, whichever the target name selects, is returned traced; and an
  error from \<open>NewDiscovery\<close>, called with the fresh context, the servers of the
  database and the strategy just built, is returned traced. In each case the active
  component, the current strategy name and the cancellation handle of the receiver, the
  whole heap of orchestrators and the support services are unchanged, so the previous
  strategy stays in force. Conversely every error that \<open>reload\<close> returns is one of
  these, with the state unchanged.
\<close>

theorem reload_error_state_unchanged:
  assumes run: "reload pkg reloadedTactics d w = (r, w')"
  shows
    "(\<forall>s e. support (heap w d) = Some s \<and>
            ServerTacticsParametersCache_Get (supports w s) = Inl e \<longrightarrow>
        r = Returned (Some (Trace e)) \<and> same_state d w w') \<and>
     (\<forall>s p. support (heap w d) = Some s \<and>
            ServerTacticsParametersCache_Get (supports w s) = Inr p \<and>
            (reloadedTactics \<longrightarrow>
               (\<exists>sd. support_discovery (supports w s) = Some sd \<and>
                     currentStrategy (heap w sd) \<noteq> target_strategy p)) \<longrightarrow>
        (target_strategy p \<noteq> ''classic'' \<and> target_strategy p \<noteq> ''consistent'' \<longrightarrow>
           r = Returned (Some (Tracef (''unknown strategy '' @ target_strategy p))) \<and>
           same_state d w w') \<and>
        (\<forall>e. target_strategy p = ''consistent'' \<and>
              NewConsistentHashingDiscovery pkg = Inl e \<longrightarrow>
           r = Returned (Some (Trace e)) \<and> same_state d w w') \<and>
        (\<forall>e. target_strategy p = ''classic'' \<and>
              NewClassicDiscovery pkg (DiscoveryValueHMACKey (supports w s)) = Inl e \<longrightarrow>
           r = Returned (Some (Trace e)) \<and> same_state d w w') \<and>
        (\<forall>ds e. (target_strategy p = ''consistent'' \<and>
                   NewConsistentHashingDiscovery pkg = Inr ds \<or>
                 target_strategy p = ''classic'' \<and>
                   NewClassicDiscovery pkg (DiscoveryValueHMACKey (supports w s)) = Inr ds) \<and>
                NewDiscovery pkg (nextCtx w)
                  (PsinetDatabase_GetDiscoveryServers (supports w s)) ds = Inl e \<longrightarrow>
           r = Returned (Some (Trace e)) \<and> same_state d w w')) \<and>
     (\<forall>err. r = Returned (Some err) \<longrightarrow>
        same_state d w w' \<and>
        (\<exists>s. support (heap w d) = Some s \<and>
           ((\<exists>e. ServerTacticsParametersCache_Get (supports w s) = Inl e \<and> err = Trace e)
          \<or> (\<exists>p. ServerTacticsParametersCache_Get (supports w s) = Inr p \<and>
                 \<not> recognized (target_strategy p) \<and>
                 err = Tracef (''unknown strategy '' @ target_strategy p))
          \<or> (\<exists>p e. ServerTacticsParametersCache_Get (supports w s) = Inr p \<and>
                 target_strategy p = DISCOVERY_STRATEGY_CONSISTENT \<and>
                 NewConsistentHashingDiscovery pkg = Inl e \<and> err = Trace e)
          \<or> (\<exists>p e. ServerTacticsParametersCache_Get (supports w s) = Inr p \<and>
                 target_strategy p = DISCOVERY_STRATEGY_CLASSIC \<and>
                 NewClassicDiscovery pkg (DiscoveryValueHMACKey (supports w s)) = Inl e \<and>
                 err = Trace e)
          \<or> (\<exists>p ds e. ServerTacticsParametersCache_Get (supports w s) = Inr p \<and>
                 NewDiscovery pkg (nextCtx w)
                   (PsinetDatabase_GetDiscoveryServers (supports w s)) ds = Inl e \<and>
                 err = Trace e))))"
  (is "?fetch \<and> ?rebuild \<and> ?only")
proof -
  have fetch: ?fetch
  proof (intro allI impI, elim conjE)
    fix s e
    assume "support (heap w d) = Some s"
      and "ServerTacticsParametersCache_Get (supports w s) = Inl e"
    from reload_fetch_fails [OF this, of pkg reloadedTactics] run
    show "r = Returned (Some (Trace e)) \<and> same_state d w w'"
      by (auto simp: same_state_def emit_simps)
  qed
  have rebuild: ?rebuild
  proof (intro allI impI, elim conjE)
    fix s p
    let ?svc = "supports w s"
    let ?v = "emit (Ev_Get True) w"
    assume sup: "support (heap w d) = Some s"
      and get: "ServerTacticsParametersCache_Get ?svc = Inr p"
      and go: "reloadedTactics \<longrightarrow>
                 (\<exists>sd. support_discovery ?svc = Some sd \<and>
                       currentStrategy (heap w sd) \<noteq> target_strategy p)"
    from reload_proceeds [OF sup get go, of pkg] run
    have init: "reload_init pkg ?svc (target_strategy p) d ?v = (r, w')"
      by simp
    have keep: "heap w' = heap ?v \<and> supports w' = supports ?v \<Longrightarrow> same_state d w w'"
      by (simp add: same_state_def emit_simps)
    have unknown: "target_strategy p \<noteq> ''classic'' \<and> target_strategy p \<noteq> ''consistent'' \<longrightarrow>
           r = Returned (Some (Tracef (''unknown strategy '' @ target_strategy p))) \<and>
           same_state d w w'"
      using reload_init_unknown_state [OF _ _ init] keep by auto
    have consistent: "\<forall>e. target_strategy p = ''consistent'' \<and>
              NewConsistentHashingDiscovery pkg = Inl e \<longrightarrow>
           r = Returned (Some (Trace e)) \<and> same_state d w w'"
      using reload_init_consistent_fails [of pkg _ ?svc d ?v r w'] init keep by auto
    have classic: "\<forall>e. target_strategy p = ''classic'' \<and>
              NewClassicDiscovery pkg (DiscoveryValueHMACKey ?svc) = Inl e \<longrightarrow>
           r = Returned (Some (Trace e)) \<and> same_state d w w'"
      using reload_init_classic_fails [of pkg ?svc _ d ?v r w'] init keep by auto
    have component: "\<forall>ds e. (target_strategy p = ''consistent'' \<and>
                   NewConsistentHashingDiscovery pkg = Inr ds \<or>
                 target_strategy p = ''classic'' \<and>
                   NewClassicDiscovery pkg (DiscoveryValueHMACKey ?svc) = Inr ds) \<and>
                NewDiscovery pkg (nextCtx w) (PsinetDatabase_GetDiscoveryServers ?svc) ds
                  = Inl e \<longrightarrow>
           r = Returned (Some (Trace e)) \<and> same_state d w w'"
    proof (intro allI impI, elim conjE)
      fix ds e
      assume ctor: "target_strategy p = ''consistent'' \<and>
                   NewConsistentHashingDiscovery pkg = Inr ds \<or>
                 target_strategy p = ''classic'' \<and>
                   NewClassicDiscovery pkg (DiscoveryValueHMACKey ?svc) = Inr ds"
        and comp: "NewDiscovery pkg (nextCtx w) (PsinetDatabase_GetDiscoveryServers ?svc) ds
                     = Inl e"
      from comp have "NewDiscovery pkg (nextCtx ?v) (PsinetDatabase_GetDiscoveryServers ?svc) ds
                        = Inl e"
        by (simp add: emit_simps)
      from reload_init_component_fails [OF ctor this init] keep
      show "r = Returned (Some (Trace e)) \<and> same_state d w w'" by simp
    qed
    from unknown consistent classic component
    show "(target_strategy p \<noteq> ''classic'' \<and> target_strategy p \<noteq> ''consistent'' \<longrightarrow>
           r = Returned (Some (Tracef (''unknown strategy '' @ target_strategy p))) \<and>
           same_state d w w') \<and>
        (\<forall>e. target_strategy p = ''consistent'' \<and>
              NewConsistentHashingDiscovery pkg = Inl e \<longrightarrow>
           r = Returned (Some (Trace e)) \<and> same_state d w w') \<and>
        (\<forall>e. target_strategy p = ''classic'' \<and>
              NewClassicDiscovery pkg (DiscoveryValueHMACKey ?svc) = Inl e \<longrightarrow>
           r = Returned (Some (Trace e)) \<and> same_state d w w') \<and>
        (\<forall>ds e. (target_strategy p = ''consistent'' \<and>
                   NewConsistentHashingDiscovery pkg = Inr ds \<or>
                 target_strategy p = ''classic'' \<and>
                   NewClassicDiscovery pkg (DiscoveryValueHMACKey ?svc) = Inr ds) \<and>
                NewDiscovery pkg (nextCtx w) (PsinetDatabase_GetDiscoveryServers ?svc) ds
                  = Inl e \<longrightarrow>
           r = Returned (Some (Trace e)) \<and> same_state d w w')"
      by (intro conjI)
  qed
  have only: ?only
  proof (intro allI impI)
    fix err assume "r = Returned (Some err)"
    with run have "reload pkg reloadedTactics d w = (Returned (Some err), w')" by simp
    from reload_error_classified [OF this]
    show "same_state d w w' \<and>
        (\<exists>s. support (heap w d) = Some s \<and>
           ((\<exists>e. ServerTacticsParametersCache_Get (supports w s) = Inl e \<and> err = Trace e)
          \<or> (\<exists>p. ServerTacticsParametersCache_Get (supports w s) = Inr p \<and>
                 \<not> recognized (target_strategy p) \<and>
                 err = Tracef (''unknown strategy '' @ target_strategy p))
          \<or> (\<exists>p e. ServerTacticsParametersCache_Get (supports w s) = Inr p \<and>
                 target_strategy p = DISCOVERY_STRATEGY_CONSISTENT \<and>
                 NewConsistentHashingDiscovery pkg = Inl e \<and> err = Trace e)
          \<or> (\<exists>p e. ServerTacticsParametersCache_Get (supports w s) = Inr p \<and>
                 target_strategy p = DISCOVERY_STRATEGY_CLASSIC \<and>
                 NewClassicDiscovery pkg (DiscoveryValueHMACKey (supports w s)) = Inl e \<and>
                 err = Trace e)
          \<or> (\<exists>p ds e. ServerTacticsParametersCache_Get (supports w s) = Inr p \<and>
                 NewDiscovery pkg (nextCtx w)
                   (PsinetDatabase_GetDiscoveryServers (supports w s)) ds = Inl e \<and>
                 err = Trace e)))"
      unfolding same_state_def by blast
  qed
  from fetch rebuild only show ?thesis by (intro conjI)
qed

theorem reload_error_state_unchanged_witness:
  "fst (reload example_pkg False 0 (running_world (Inl (External ''tactics''))))
     = Returned (Some (Trace (External ''tactics''))) \<and>
   same_state 0 (running_world (Inl (External ''tactics'')))
     (snd (reload example_pkg False 0 (running_world (Inl (External ''tactics''))))) \<and>
   fst (reload example_pkg False 0 (running_world (Inr (Parameters ''foo''))))
     = Returned (Some (Tracef ''unknown strategy foo'')) \<and>
   same_state 0 (running_world (Inr (Parameters ''foo'')))
     (snd (reload example_pkg False 0 (running_world (Inr (Parameters ''foo''))))) \<and>
   fst (reload failing_strategy_pkg True 0 (running_world (Inr (Parameters ''consistent''))))
     = Returned (Some (Trace (External ''ring''))) \<and>
   same_state 0 (running_world (Inr (Parameters ''consistent'')))
     (snd (reload failing_strategy_pkg True 0
             (running_world (Inr (Parameters ''consistent''))))) \<and>
   fst (reload failing_component_pkg False 0 (running_world (Inr NilParameters)))
     = Returned (Some (Trace (External ''component''))) \<and>
   same_state 0 (running_world (Inr NilParameters))
     (snd (reload failing_component_pkg False 0 (running_world (Inr NilParameters)))) \<and>
   currentStrategy
     (heap (snd (reload failing_component_pkg False 0 (running_world (Inr NilParameters)))) 0)
     = ''classic''"
proof -
  have sup: "support (heap (running_world t) 0) = Some 0" for t
    by (simp add: example_defs)
  have get: "ServerTacticsParametersCache_Get (supports (running_world t) 0) = t" for t
    by (simp add: example_defs)
  have key: "DiscoveryValueHMACKey (supports (running_world t) 0) = ''key''" for t
    by (simp add: example_defs)
  have reg: "support_discovery (supports (running_world t) 0) = Some 0" for t
    by (simp add: example_defs)
  have name: "currentStrategy (heap (running_world t) 0) = ''classic''" for t
    by (simp add: example_defs)
  have ctx: "nextCtx (running_world t) = 1" for t
    by (simp add: example_defs)
  have target: "target_strategy (Parameters ''foo'') = ''foo''"
    "target_strategy (Parameters ''consistent'') = ''consistent''"
    "target_strategy NilParameters = ''classic''"
    by (simp_all add: target_strategy_def strategy_names)
  have run: "reload pkg rt 0 w = (fst (reload pkg rt 0 w), snd (reload pkg rt 0 w))"
    for pkg rt w
    by simp
  let ?w1 = "running_world (Inl (External ''tactics''))"
  from reload_error_state_unchanged [OF run [of example_pkg False ?w1]]
  have "\<forall>s e. support (heap ?w1 0) = Some s \<and>
            ServerTacticsParametersCache_Get (supports ?w1 s) = Inl e \<longrightarrow>
          fst (reload example_pkg False 0 ?w1) = Returned (Some (Trace e)) \<and>
          same_state 0 ?w1 (snd (reload example_pkg False 0 ?w1))"
    by (elim conjE)
  with sup [of "Inl (External ''tactics'')"] get [of "Inl (External ''tactics'')"]
  have 1: "fst (reload example_pkg False 0 ?w1) = Returned (Some (Trace (External ''tactics''))) \<and>
          same_state 0 ?w1 (snd (reload example_pkg False 0 ?w1))"
    by blast
  let ?w2 = "running_world (Inr (Parameters ''foo''))"
  from reload_error_state_unchanged [OF run [of example_pkg False ?w2],
      THEN conjunct2, THEN conjunct1, rule_format, of 0 "Parameters ''foo''",
      THEN conjunct1, rule_format]
    sup [of "Inr (Parameters ''foo'')"] get [of "Inr (Parameters ''foo'')"] target(1)
  have 2: "fst (reload example_pkg False 0 ?w2) = Returned (Some (Tracef ''unknown strategy foo'')) \<and>
          same_state 0 ?w2 (snd (reload example_pkg False 0 ?w2))"
    by simp
  let ?w3 = "running_world (Inr (Parameters ''consistent''))"
  have go: "\<exists>sd. support_discovery (supports ?w3 0) = Some sd \<and>
                 currentStrategy (heap ?w3 sd) \<noteq> target_strategy (Parameters ''consistent'')"
    using reg [of "Inr (Parameters ''consistent'')"] name [of "Inr (Parameters ''consistent'')"]
      target(2) by simp
  have ring: "NewConsistentHashingDiscovery failing_strategy_pkg = Inl (External ''ring'')"
    by (simp add: failing_defs)
  from reload_error_state_unchanged [OF run [of failing_strategy_pkg True ?w3],
      THEN conjunct2, THEN conjunct1, rule_format, of 0 "Parameters ''consistent''",
      THEN conjunct2, THEN conjunct1, rule_format, of "External ''ring''"]
    sup [of "Inr (Parameters ''consistent'')"] get [of "Inr (Parameters ''consistent'')"]
    target(2) go ring
  have 3: "fst (reload failing_strategy_pkg True 0 ?w3)
             = Returned (Some (Trace (External ''ring''))) \<and>
          same_state 0 ?w3 (snd (reload failing_strategy_pkg True 0 ?w3))"
    by simp
  let ?w4 = "running_world (Inr NilParameters)"
  have built: "NewClassicDiscovery failing_component_pkg ''key'' = Inr 2"
    and comp: "NewDiscovery failing_component_pkg 1
                 (PsinetDatabase_GetDiscoveryServers (supports ?w4 0)) 2
                 = Inl (External ''component'')"
    by (simp_all add: failing_defs)
  from reload_error_state_unchanged [OF run [of failing_component_pkg False ?w4],
      THEN conjunct2, THEN conjunct1, rule_format, of 0 NilParameters,
      THEN conjunct2, THEN conjunct2, THEN conjunct2, rule_format, of 2 "External ''component''"]
    sup [of "Inr NilParameters"] get [of "Inr NilParameters"] key [of "Inr NilParameters"]
    ctx [of "Inr NilParameters"] target(3) built comp
  have 4: "fst (reload failing_component_pkg False 0 ?w4)
             = Returned (Some (Trace (External ''component''))) \<and>
          same_state 0 ?w4 (snd (reload failing_component_pkg False 0 ?w4))"
    by simp
  from 4 name [of "Inr NilParameters"]
  have 5: "currentStrategy (heap (snd (reload failing_component_pkg False 0 ?w4)) 0) = ''classic''"
    by (simp add: same_state_def)
  from 1 2 3 4 5 show ?thesis by (intro conjI) simp_all
qed

text \<open>
  C3. For a receiver with support services, and, when \<open>reloadedTactics\<close> is set, with a
  registered orchestrator whose recorded name is empty or recognized (which \<open>reload\<close>
  maintains, as the lemmas on \<open>known_names\<close> show): \<open>reload\<close> returns an error if
  and only if the fetch of the tactics parameters fails, or the fetched name is not empty
  and neither \<open>classic\<close> nor \<open>consistent\<close>, or construction fails. Construction
  fails when the reload is not short-circuited and the strategy constructor that the
  target name selects returns an error, or that constructor returns a strategy and
  \<open>NewDiscovery\<close>, called with the fresh context, the servers of the database and that
  strategy, returns an error. In particular an unrecognized name always yields the error
  \<open>unknown strategy\<close> followed by the name.
\<close>

theorem reload_error_iff:
  assumes run: "reload pkg reloadedTactics d w = (r, w')"
    and sup: "support (heap w d) = Some s"
    and reg: "reloadedTactics \<Longrightarrow>
                \<exists>sd. support_discovery (supports w s) = Some sd \<and>
                     (currentStrategy (heap w sd) = '''' \<or> recognized (currentStrategy (heap w sd)))"
  shows "((\<exists>err. r = Returned (Some err)) \<longleftrightarrow>
            (\<exists>e. ServerTacticsParametersCache_Get (supports w s) = Inl e)
          \<or> (\<exists>name. ServerTacticsParametersCache_Get (supports w s) = Inr (Parameters name) \<and>
                 name \<noteq> '''' \<and> name \<noteq> ''classic'' \<and> name \<noteq> ''consistent'')
          \<or> (\<exists>p. ServerTacticsParametersCache_Get (supports w s) = Inr p \<and>
                 \<not> (reloadedTactics \<and>
                    (\<exists>sd. support_discovery (supports w s) = Some sd \<and>
                          currentStrategy (heap w sd) = target_strategy p)) \<and>
                 ((target_strategy p = ''consistent'' \<and>
                     (\<exists>e. NewConsistentHashingDiscovery pkg = Inl e))
                \<or> (target_strategy p = ''classic'' \<and>
                     (\<exists>e. NewClassicDiscovery pkg (DiscoveryValueHMACKey (supports w s)) = Inl e))
                \<or> (\<exists>ds e.
                      (target_strategy p = ''consistent'' \<and>
                         NewConsistentHashingDiscovery pkg = Inr ds \<or>
                       target_strategy p = ''classic'' \<and>
                         NewClassicDiscovery pkg (DiscoveryValueHMACKey (supports w s)) = Inr ds) \<and>
                      NewDiscovery pkg (nextCtx w)
                        (PsinetDatabase_GetDiscoveryServers (supports w s)) ds = Inl e))))
       \<and> (\<forall>name. ServerTacticsParametersCache_Get (supports w s) = Inr (Parameters name) \<and>
                 name \<noteq> '''' \<and> name \<noteq> ''classic'' \<and> name \<noteq> ''consistent''
              \<longrightarrow> r = Returned (Some (Tracef (''unknown strategy '' @ name))))"
  (is "(?err \<longleftrightarrow> ?fetch \<or> ?unknown \<or> ?construction) \<and> ?particular")
proof -
  let ?svc = "supports w s"
  let ?v = "emit (Ev_Get True) w"
  have target_unknown:
    "\<not> recognized (target_strategy p) \<longleftrightarrow>
       (\<exists>name. p = Parameters name \<and> name \<noteq> '''' \<and> name \<noteq> ''classic'' \<and> name \<noteq> ''consistent'')"
    for p
    by (cases p) (auto simp: target_strategy_def recognized_def strategy_names)
  have target_name: "target_strategy (Parameters name) = name" if "name \<noteq> ''''" for name
    using that by (simp add: target_strategy_def)
  have target_nonempty: "target_strategy p \<noteq> ''''" for p
    by (cases p) (auto simp: target_strategy_def strategy_names)
  have rec: "recognized x \<longleftrightarrow> x = ''classic'' \<or> x = ''consistent''" for x
    by (simp add: recognized_def strategy_names)
  have go: "reloadedTactics \<longrightarrow>
              (\<exists>sd. support_discovery ?svc = Some sd \<and>
                    currentStrategy (heap w sd) \<noteq> target_strategy p)"
    if "\<not> (reloadedTactics \<and> (\<exists>sd. support_discovery ?svc = Some sd \<and>
                                   currentStrategy (heap w sd) = target_strategy p))" for p
    using that reg by auto
  have go_unknown: "reloadedTactics \<longrightarrow>
              (\<exists>sd. support_discovery ?svc = Some sd \<and>
                    currentStrategy (heap w sd) \<noteq> target_strategy p)"
    if "\<not> recognized (target_strategy p)" for p
    using that reg target_nonempty [of p] by auto
  have init: "reload_init pkg ?svc (target_strategy p) d ?v = (r, w')"
    if "ServerTacticsParametersCache_Get ?svc = Inr p"
      "reloadedTactics \<longrightarrow>
              (\<exists>sd. support_discovery ?svc = Some sd \<and>
                    currentStrategy (heap w sd) \<noteq> target_strategy p)" for p
    using reload_proceeds [OF sup that, of pkg] run by simp
  have particular: ?particular
  proof (intro allI impI, elim conjE)
    fix name
    assume get: "ServerTacticsParametersCache_Get ?svc = Inr (Parameters name)"
      and name: "name \<noteq> ''''" "name \<noteq> ''classic''" "name \<noteq> ''consistent''"
    from name have t: "target_strategy (Parameters name) = name"
      by (simp add: target_name)
    with name have "\<not> recognized (target_strategy (Parameters name))"
      by (simp add: rec)
    from init [OF get go_unknown [OF this]] t
    have "reload_init pkg ?svc name d ?v = (r, w')" by simp
    from reload_init_unknown_state [OF name(2,3) this]
    show "r = Returned (Some (Tracef (''unknown strategy '' @ name)))" by simp
  qed
  have bwd: "?err" if h: "?fetch \<or> ?unknown \<or> ?construction"
  proof -
    from h consider (fetch) ?fetch | (unknown) ?unknown | (construction) ?construction
      by blast
    then show ?thesis
    proof cases
      case fetch
      then obtain e where "ServerTacticsParametersCache_Get ?svc = Inl e" ..
      from reload_fetch_fails [OF sup this, of pkg reloadedTactics] run
      show ?thesis by simp
    next
      case unknown
      with particular show ?thesis by blast
    next
      case construction
      then obtain p where get: "ServerTacticsParametersCache_Get ?svc = Inr p"
        and ns: "\<not> (reloadedTactics \<and> (\<exists>sd. support_discovery ?svc = Some sd \<and>
                                   currentStrategy (heap w sd) = target_strategy p))"
        and alt: "(target_strategy p = ''consistent'' \<and>
                     (\<exists>e. NewConsistentHashingDiscovery pkg = Inl e))
                \<or> (target_strategy p = ''classic'' \<and>
                     (\<exists>e. NewClassicDiscovery pkg (DiscoveryValueHMACKey ?svc) = Inl e))
                \<or> (\<exists>ds e.
                      (target_strategy p = ''consistent'' \<and>
                         NewConsistentHashingDiscovery pkg = Inr ds \<or>
                       target_strategy p = ''classic'' \<and>
                         NewClassicDiscovery pkg (DiscoveryValueHMACKey ?svc) = Inr ds) \<and>
                      NewDiscovery pkg (nextCtx w)
                        (PsinetDatabase_GetDiscoveryServers ?svc) ds = Inl e)"
        by blast
      note run_init = init [OF get go [OF ns]]
      from alt consider
          (ring) e where "target_strategy p = ''consistent''"
            "NewConsistentHashingDiscovery pkg = Inl e"
        | (bucket) e where "target_strategy p = ''classic''"
            "NewClassicDiscovery pkg (DiscoveryValueHMACKey ?svc) = Inl e"
        | (component) ds e where
            "target_strategy p = ''consistent'' \<and>
               NewConsistentHashingDiscovery pkg = Inr ds \<or>
             target_strategy p = ''classic'' \<and>
               NewClassicDiscovery pkg (DiscoveryValueHMACKey ?svc) = Inr ds"
            "NewDiscovery pkg (nextCtx w) (PsinetDatabase_GetDiscoveryServers ?svc) ds = Inl e"
        by blast
      then show ?thesis
      proof cases
        case ring
        from run_init ring(1)
        have "reload_init pkg ?svc ''consistent'' d ?v = (r, w')" by simp
        from reload_init_consistent_fails [OF ring(2) this] show ?thesis by simp
      next
        case bucket
        from run_init bucket(1)
        have "reload_init pkg ?svc ''classic'' d ?v = (r, w')" by simp
        from reload_init_classic_fails [OF bucket(2) this] show ?thesis by simp
      next
        case component
        from component(2)
        have "NewDiscovery pkg (nextCtx ?v) (PsinetDatabase_GetDiscoveryServers ?svc) ds = Inl e"
          by (simp add: emit_simps)
        from reload_init_component_fails [OF component(1) this run_init]
        show ?thesis by simp
      qed
    qed
  qed
  have fwd: "?fetch \<or> ?unknown \<or> ?construction" if err: ?err
  proof -
    from reload_cases [OF run sup] err
    consider (fetch) ?fetch
      | (init) p where "ServerTacticsParametersCache_Get ?svc = Inr p"
          "reloadedTactics \<longrightarrow>
              (\<exists>sd. support_discovery ?svc = Some sd \<and>
                    currentStrategy (heap w sd) \<noteq> target_strategy p)"
          "reload_init pkg ?svc (target_strategy p) d ?v = (r, w')"
      by auto
    then show ?thesis
    proof cases
      case fetch
      then show ?thesis by simp
    next
      case init
      from init(2) have ns:
        "\<not> (reloadedTactics \<and> (\<exists>sd. support_discovery ?svc = Some sd \<and>
                                   currentStrategy (heap w sd) = target_strategy p))"
        by auto
      show ?thesis
      proof (cases "recognized (target_strategy p)")
        case False
        with target_unknown [of p] init(1) have ?unknown by auto
        then show ?thesis by simp
      next
        case True
        then have t: "target_strategy p = ''classic'' \<or> target_strategy p = ''consistent''"
          by (simp add: rec)
        show ?thesis
        proof (cases "strategy_call pkg ?svc (target_strategy p)")
          case (Inl e)
          with t have
            "(target_strategy p = ''consistent'' \<and> (\<exists>e. NewConsistentHashingDiscovery pkg = Inl e))
             \<or> (target_strategy p = ''classic'' \<and>
                 (\<exists>e. NewClassicDiscovery pkg (DiscoveryValueHMACKey ?svc) = Inl e))"
            by (auto simp: strategy_call_def strategy_names split: if_splits)
          with init(1) ns have ?construction by blast
          then show ?thesis by simp
        next
          case (Inr ds)
          with t have ctor: "target_strategy p = ''consistent'' \<and>
                   NewConsistentHashingDiscovery pkg = Inr ds \<or>
                 target_strategy p = ''classic'' \<and>
                   NewClassicDiscovery pkg (DiscoveryValueHMACKey ?svc) = Inr ds"
            by (auto simp: strategy_call_def strategy_names split: if_splits)
          show ?thesis
          proof (cases "NewDiscovery pkg (nextCtx w) (PsinetDatabase_GetDiscoveryServers ?svc) ds")
            case (Inl e)
            with ctor init(1) ns have ?construction by blast
            then show ?thesis by simp
          next
            case (Inr c)
            then have "NewDiscovery pkg (nextCtx ?v) (PsinetDatabase_GetDiscoveryServers ?svc) ds
                         = Inr c"
              by (simp add: emit_simps)
            from reload_init_component_built [OF ctor this init(3)] err
            show ?thesis by simp
          qed
        qed
      qed
    qed
  qed
  from bwd fwd particular show ?thesis by blast
qed

theorem reload_error_iff_witness:
  "support (heap (running_world (Inr NilParameters)) 0) = Some 0 \<and>
   (\<exists>sd. support_discovery (supports (running_world (Inr NilParameters)) 0) = Some sd \<and>
         (currentStrategy (heap (running_world (Inr NilParameters)) sd) = '''' \<or>
          recognized (currentStrategy (heap (running_world (Inr NilParameters)) sd)))) \<and>
   (\<exists>err. fst (reload failing_strategy_pkg False 0 (running_world (Inr NilParameters)))
            = Returned (Some err)) \<and>
   (\<exists>err. fst (reload failing_component_pkg True 0
                  (running_world (Inr (Parameters ''consistent''))))
            = Returned (Some err)) \<and>
   fst (reload example_pkg True 0 (running_world (Inr (Parameters ''ring''))))
     = Returned (Some (Tracef ''unknown strategy ring'')) \<and>
   (\<nexists>err. fst (reload example_pkg False 0 (running_world (Inr NilParameters)))
            = Returned (Some err))"
proof -
  have sup: "support (heap (running_world t) 0) = Some 0" for t
    by (simp add: example_defs)
  have reg: "\<exists>sd. support_discovery (supports (running_world t) 0) = Some sd \<and>
               (currentStrategy (heap (running_world t) sd) = '''' \<or>
                recognized (currentStrategy (heap (running_world t) sd)))" for t
    by (simp add: example_defs recognized_def strategy_names)
  have run: "reload pkg rt 0 w = (fst (reload pkg rt 0 w), snd (reload pkg rt 0 w))"
    for pkg rt w
    by simp
  have facts:
    "ServerTacticsParametersCache_Get (supports (running_world t) 0) = t"
    "DiscoveryValueHMACKey (supports (running_world t) 0) = ''key''"
    "support_discovery (supports (running_world t) 0) = Some 0"
    "currentStrategy (heap (running_world t) 0) = ''classic''"
    "nextCtx (running_world t) = 1" for t
    by (simp_all add: example_defs)
  have target: "target_strategy (Parameters ''consistent'') = ''consistent''"
    "target_strategy NilParameters = ''classic''"
    by (simp_all add: target_strategy_def strategy_names)
  let ?w = "running_world (Inr NilParameters)"
  let ?wc = "running_world (Inr (Parameters ''consistent''))"
  let ?wr = "running_world (Inr (Parameters ''ring''))"
  from reload_error_iff [OF run [of failing_strategy_pkg False ?w] sup reg, THEN conjunct1]
  have 1: "\<exists>err. fst (reload failing_strategy_pkg False 0 ?w) = Returned (Some err)"
    by (simp add: facts target failing_defs)
  from reload_error_iff [OF run [of failing_component_pkg True ?wc] sup reg, THEN conjunct1]
  have 2: "\<exists>err. fst (reload failing_component_pkg True 0 ?wc) = Returned (Some err)"
    by (simp add: facts target failing_defs)
  from reload_error_iff [OF run [of example_pkg True ?wr] sup reg, THEN conjunct2]
  have 3: "fst (reload example_pkg True 0 ?wr) = Returned (Some (Tracef ''unknown strategy ring''))"
    by (simp add: facts)
  from reload_error_iff [OF run [of example_pkg False ?w] sup reg, THEN conjunct1]
  have 4: "\<nexists>err. fst (reload example_pkg False 0 ?w) = Returned (Some err)"
    by (simp add: facts target example_pkg_def)
  from sup [of "Inr NilParameters"] reg [of "Inr NilParameters"] 1 2 3 4
  show ?thesis by (intro conjI)
qed

section \<open>The default strategy\<close>

text \<open>
  C4. When the tactics source yields nil parameters or an empty strategy name, the
  effective strategy is \<open>classic\<close>: the target name is \<open>classic\<close>, the constructor of
  the consistent strategy is never called, and a reload that succeeds either was
  short-circuited against a recorded name that is \<open>classic\<close> already, or it has built
  the classic strategy with the HMAC key of the configuration, built the component from
  it, logged it and recorded \<open>classic\<close> as the current strategy name of the receiver.
\<close>

theorem reload_defaults_to_classic:
  assumes run: "reload pkg reloadedTactics d w = (r, w')"
    and sup: "support (heap w d) = Some s"
    and get: "ServerTacticsParametersCache_Get (supports w s) = Inr p"
    and unset: "p = NilParameters \<or> p = Parameters ''''"
  shows "target_strategy p = ''classic'' \<and>
         (\<forall>ok. Ev_NewConsistentHashingDiscovery ok \<notin> set (emitted w w')) \<and>
         (r = Returned None \<longrightarrow>
            (reloadedTactics \<and> emitted w w' = [Ev_Get True] \<and>
               (\<exists>sd. support_discovery (supports w s) = Some sd \<and>
                     currentStrategy (heap w' sd) = ''classic''))
          \<or> (\<exists>ds c. NewClassicDiscovery pkg (DiscoveryValueHMACKey (supports w s)) = Inr ds \<and>
                 NewDiscovery pkg (nextCtx w)
                   (PsinetDatabase_GetDiscoveryServers (supports w s)) ds = Inr c \<and>
                 Ev_NewClassicDiscovery (DiscoveryValueHMACKey (supports w s)) True
                   \<in> set (emitted w w') \<and>
                 Ev_NewDiscovery (nextCtx w) ds True \<in> set (emitted w w') \<and>
                 Ev_Log ''using classic discovery'' \<in> set (emitted w w') \<and>
                 currentStrategy (heap w' d) = ''classic'' \<and>
                 discovery (heap w' d) = Some c))"
proof -
  let ?svc = "supports w s"
  let ?w1 = "emit (Ev_Get True) w"
  let ?key = "DiscoveryValueHMACKey ?svc"
  from unset have target: "target_strategy p = ''classic''"
    by (auto simp: target_strategy_def strategy_names)
  have rec: "recognized ''classic''"
    by (simp add: recognized_def strategy_names)
  have call: "strategy_call pkg ?svc ''classic'' = NewClassicDiscovery pkg ?key"
    by (simp add: strategy_call_def strategy_names)
  have ev: "strategy_event ?svc ''classic'' ok = Ev_NewClassicDiscovery ?key ok" for ok
    by (simp add: strategy_event_def strategy_names)
  from reload_cases [OF run sup] get target
  consider (nil) "r = Panicked NilPointerDereference" "w' = ?w1"
    | (same) sd where "reloadedTactics" "support_discovery ?svc = Some sd"
      "currentStrategy (heap w sd) = ''classic''" "r = Returned None" "w' = ?w1"
    | (init) "reload_init pkg ?svc ''classic'' d ?w1 = (r, w')"
    by auto
  then show ?thesis
  proof cases
    case nil
    with target show ?thesis by simp
  next
    case same
    with target show ?thesis by (auto simp: emit_simps)
  next
    case init
    from reload_init_cases [OF init] rec call ev
    consider (ctor) e where "r = Returned (Some (Trace e))"
        "w' = emit (Ev_NewClassicDiscovery ?key False) ?w1"
      | (comp) ds where "NewClassicDiscovery pkg ?key = Inr ds"
        "reload_set pkg ?svc ''classic'' ds d (emit (Ev_NewClassicDiscovery ?key True) ?w1)
           = (r, w')"
      by auto
    then show ?thesis
    proof cases
      case ctor
      have "emitted w w' = [Ev_Get True, Ev_NewClassicDiscovery ?key False]"
        using ctor(2) by (simp add: emitted_def emit_simps)
      with ctor(1) target show ?thesis by simp
    next
      case comp
      let ?ctx = "nextCtx w"
      from reload_set_cases [OF comp(2)]
      consider (failed) e where "r = Returned (Some (Trace e))"
          "trace w' = trace w @ [Ev_Get True, Ev_NewClassicDiscovery ?key True,
             Ev_WithCancel ?ctx, Ev_GetDiscoveryServers,
             Ev_NewDiscovery ?ctx ds False, Ev_Cancel ?ctx]"
        | (built) c where "r = Returned None"
          "NewDiscovery pkg ?ctx (PsinetDatabase_GetDiscoveryServers ?svc) ds = Inr c"
          "heap w' = (heap w)(d := (heap w d)\<lparr>currentStrategy := ''classic'',
                        discovery := Some c, cancelFunc := Some ?ctx\<rparr>)"
          "trace w' = trace w @ [Ev_Get True, Ev_NewClassicDiscovery ?key True,
             Ev_WithCancel ?ctx, Ev_GetDiscoveryServers, Ev_NewDiscovery ?ctx ds True, Ev_Lock d]
               @ (case cancelFunc (heap w d) of None \<Rightarrow> [] | Some h \<Rightarrow> [Ev_Cancel h])
               @ [Ev_Unlock d, Ev_Log (''using '' @ ''classic'' @ '' discovery'')]"
        by (auto simp: emit_simps)
      then show ?thesis
      proof cases
        case failed
        from emitted_append [OF failed(2)] failed(1) target show ?thesis by simp
      next
        case built
        from emitted_append [OF built(4)] built(1,2,3) comp(1) target
        show ?thesis by (auto split: option.splits)
      qed
    qed
  qed
qed

theorem reload_defaults_to_classic_witness:
  "support (heap (running_world (Inr NilParameters)) 0) = Some 0 \<and>
   ServerTacticsParametersCache_Get (supports (running_world (Inr NilParameters)) 0)
     = Inr NilParameters \<and>
   fst (reload example_pkg False 0 (running_world (Inr NilParameters))) = Returned None \<and>
   target_strategy NilParameters = ''classic'' \<and>
   currentStrategy (heap (snd (reload example_pkg False 0 (running_world (Inr NilParameters)))) 0)
     = ''classic'' \<and>
   Ev_NewClassicDiscovery ''key'' True
     \<in> set (emitted (running_world (Inr NilParameters))
              (snd (reload example_pkg False 0 (running_world (Inr NilParameters)))))"
proof -
  let ?w = "running_world (Inr NilParameters)"
  have run: "reload example_pkg False 0 ?w
               = (fst (reload example_pkg False 0 ?w), snd (reload example_pkg False 0 ?w))"
    by simp
  have sup: "support (heap ?w 0) = Some 0"
    by (simp add: example_defs)
  have get: "ServerTacticsParametersCache_Get (supports ?w 0) = Inr NilParameters"
    by (simp add: example_defs)
  have ok: "fst (reload example_pkg False 0 ?w) = Returned None"
    by (simp add: reload_defs example_defs)
  have key: "DiscoveryValueHMACKey (supports ?w 0) = ''key''"
    by (simp add: example_defs)
  from reload_defaults_to_classic [OF run sup get] ok key
  have "target_strategy NilParameters = ''classic'' \<and>
        currentStrategy (heap (snd (reload example_pkg False 0 ?w)) 0) = ''classic'' \<and>
        Ev_NewClassicDiscovery ''key'' True
          \<in> set (emitted ?w (snd (reload example_pkg False 0 ?w)))"
    by auto
  with sup get ok show ?thesis by blast
qed

section \<open>The short circuit\<close>

text \<open>
  C5. A reload after a refresh of the tactics only, when the target name equals the name
  of the strategy currently active, that is the name recorded in the orchestrator that
  the support services hold (the receiver itself in the server, as in the example that follows),
  returns nil without rebuilding anything: the heap is unchanged, so the component, the
  cancellation handle and the recorded name are the same, no context is made, the only
  event is the fetch of the parameters, hence no cancellation is invoked. A second such
  call does the same.
\<close>

theorem reload_refresh_same_strategy_noop:
  assumes sup: "support (heap w d) = Some s"
    and reg: "support_discovery (supports w s) = Some sd"
    and get: "ServerTacticsParametersCache_Get (supports w s) = Inr p"
    and same: "currentStrategy (heap w sd) = target_strategy p"
  shows "reload pkg True d w = (Returned None, emit (Ev_Get True) w) \<and>
         heap (snd (reload pkg True d w)) = heap w \<and>
         discovery (heap (snd (reload pkg True d w)) d) = discovery (heap w d) \<and>
         cancelFunc (heap (snd (reload pkg True d w)) d) = cancelFunc (heap w d) \<and>
         currentStrategy (heap (snd (reload pkg True d w)) d) = currentStrategy (heap w d) \<and>
         nextCtx (snd (reload pkg True d w)) = nextCtx w \<and>
         emitted w (snd (reload pkg True d w)) = [Ev_Get True] \<and>
         cancellations d NotYetLocked (emitted w (snd (reload pkg True d w))) = [] \<and>
         reload pkg True d (snd (reload pkg True d w))
           = (Returned None, emit (Ev_Get True) (emit (Ev_Get True) w))"
proof -
  have first: "reload pkg True d w = (Returned None, emit (Ev_Get True) w)"
    using sup reg get same by (simp add: reload_def Let_def emit_simps)
  have second: "reload pkg True d (emit (Ev_Get True) w)
                  = (Returned None, emit (Ev_Get True) (emit (Ev_Get True) w))"
    using sup reg get same by (simp add: reload_def Let_def emit_simps)
  from first second show ?thesis by (simp add: emit_simps)
qed

theorem reload_refresh_same_strategy_noop_witness:
  "support (heap (running_world (Inr NilParameters)) 0) = Some 0 \<and>
   support_discovery (supports (running_world (Inr NilParameters)) 0) = Some 0 \<and>
   ServerTacticsParametersCache_Get (supports (running_world (Inr NilParameters)) 0)
     = Inr NilParameters \<and>
   currentStrategy (heap (running_world (Inr NilParameters)) 0) = target_strategy NilParameters \<and>
   reload example_pkg True 0 (running_world (Inr NilParameters))
     = (Returned None, emit (Ev_Get True) (running_world (Inr NilParameters))) \<and>
   discovery (heap (snd (reload example_pkg True 0 (running_world (Inr NilParameters)))) 0)
     = Some 100 \<and>
   cancelFunc (heap (snd (reload example_pkg True 0 (running_world (Inr NilParameters)))) 0)
     = Some 0"
proof -
  let ?w = "running_world (Inr NilParameters)"
  have sup: "support (heap ?w 0) = Some 0"
    and reg: "support_discovery (supports ?w 0) = Some 0"
    and get: "ServerTacticsParametersCache_Get (supports ?w 0) = Inr NilParameters"
    and same: "currentStrategy (heap ?w 0) = target_strategy NilParameters"
    by (simp_all add: example_defs target_strategy_def strategy_names)
  have before: "discovery (heap ?w 0) = Some 100" "cancelFunc (heap ?w 0) = Some 0"
    by (simp_all add: example_defs)
  from reload_refresh_same_strategy_noop [OF sup reg get same, of example_pkg] before
  have "reload example_pkg True 0 ?w = (Returned None, emit (Ev_Get True) ?w) \<and>
        discovery (heap (snd (reload example_pkg True 0 ?w)) 0) = Some 100 \<and>
        cancelFunc (heap (snd (reload example_pkg True 0 ?w)) 0) = Some 0"
    by (simp add: emit_simps)
  with sup reg get same show ?thesis by blast
qed

text \<open>
  C8. With \<open>reloadedTactics\<close> set and the parameters fetched, \<open>reload\<close> dereferences
  \<open>d.support.discovery\<close> without a nil check: it panics exactly when that field is nil,
  while a reload with \<open>reloadedTactics\<close> unset never panics there. When the field is
  not nil the short circuit is taken if and only if the name recorded in that orchestrator
  equals the target name; when that orchestrator is not the receiver, the decision is the
  same whatever name the receiver itself records, so it can differ from the one the
  receiver's own state would give.
\<close>

theorem reload_short_circuit_reads_support_discovery:
  assumes sup: "support (heap w d) = Some s"
    and get: "ServerTacticsParametersCache_Get (supports w s) = Inr p"
  shows "(support_discovery (supports w s) = None \<longrightarrow>
            fst (reload pkg True d w) = Panicked NilPointerDereference) \<and>
         (\<forall>pn. fst (reload pkg False d w) \<noteq> Panicked pn) \<and>
         (\<forall>sd. support_discovery (supports w s) = Some sd \<longrightarrow>
            (\<forall>pn. fst (reload pkg True d w) \<noteq> Panicked pn) \<and>
            (reload pkg True d w = (Returned None, emit (Ev_Get True) w)
               \<longleftrightarrow> currentStrategy (heap w sd) = target_strategy p) \<and>
            (sd \<noteq> d \<longrightarrow> (\<forall>name.
               reload pkg True d (store d (\<lambda>r. r\<lparr>currentStrategy := name\<rparr>) w)
                 = (Returned None, emit (Ev_Get True) (store d (\<lambda>r. r\<lparr>currentStrategy := name\<rparr>) w))
               \<longleftrightarrow> currentStrategy (heap w sd) = target_strategy p)))"
proof -
  have no_panic_init: "fst (reload_init pkg svc strategy a v) \<noteq> Panicked pn"
    for svc strategy a v pn
  proof -
    obtain r v' where rv: "reload_init pkg svc strategy a v = (r, v')"
      by (cases "reload_init pkg svc strategy a v")
    from reload_init_cases [OF rv] have "r \<noteq> Panicked pn"
      by (auto dest: reload_set_cases)
    with rv show ?thesis by simp
  qed
  have not_short: "reload_init pkg svc strategy a (emit (Ev_Get True) v)
                     \<noteq> (Returned None, emit (Ev_Get True) v)"
    for svc strategy a v
  proof
    assume eq: "reload_init pkg svc strategy a (emit (Ev_Get True) v)
                  = (Returned None, emit (Ev_Get True) v)"
    from reload_init_cases [OF eq] obtain ds where
      "reload_set pkg svc strategy ds a
         (emit (strategy_event svc strategy True) (emit (Ev_Get True) v))
         = (Returned None, emit (Ev_Get True) v)"
      by auto
    from reload_set_cases [OF this] show False
      by (auto simp: emit_simps)
  qed
  have short_iff:
    "reload pkg True d v = (Returned None, emit (Ev_Get True) v)
       \<longleftrightarrow> currentStrategy (heap v sd) = target_strategy p"
    if "support (heap v d) = Some s" "supports v = supports w"
      "support_discovery (supports w s) = Some sd" for v sd
    using that get not_short [of "supports w s" "target_strategy p" d v]
    by (auto simp: reload_def Let_def emit_simps)
  show ?thesis
  proof (intro conjI allI impI)
    assume "support_discovery (supports w s) = None"
    with sup get show "fst (reload pkg True d w) = Panicked NilPointerDereference"
      by (simp add: reload_def Let_def)
  next
    fix pn
    from sup get no_panic_init show "fst (reload pkg False d w) \<noteq> Panicked pn"
      by (simp add: reload_def Let_def)
  next
    fix sd pn assume "support_discovery (supports w s) = Some sd"
    with sup get no_panic_init show "fst (reload pkg True d w) \<noteq> Panicked pn"
      by (simp add: reload_def Let_def)
  next
    fix sd assume "support_discovery (supports w s) = Some sd"
    with short_iff [of w sd] sup
    show "reload pkg True d w = (Returned None, emit (Ev_Get True) w)
            \<longleftrightarrow> currentStrategy (heap w sd) = target_strategy p"
      by simp
  next
    fix sd name assume sd: "support_discovery (supports w s) = Some sd" "sd \<noteq> d"
    let ?v = "store d (\<lambda>r. r\<lparr>currentStrategy := name\<rparr>) w"
    from short_iff [of ?v sd] sup sd
    show "reload pkg True d ?v = (Returned None, emit (Ev_Get True) ?v)
            \<longleftrightarrow> currentStrategy (heap w sd) = target_strategy p"
      by (simp add: store_simps)
  qed
qed

theorem reload_short_circuit_reads_support_discovery_witness:
  "support (heap two_orchestrators 0) = Some 0 \<and>
   ServerTacticsParametersCache_Get (supports two_orchestrators 0) = Inr NilParameters \<and>
   support_discovery (supports two_orchestrators 0) = Some 1 \<and>
   currentStrategy (heap two_orchestrators 0) = target_strategy NilParameters \<and>
   currentStrategy (heap two_orchestrators 1) \<noteq> target_strategy NilParameters \<and>
   reload example_pkg True 0 two_orchestrators
     \<noteq> (Returned None, emit (Ev_Get True) two_orchestrators)"
proof -
  let ?w = two_orchestrators
  have sup: "support (heap ?w 0) = Some 0"
    and get: "ServerTacticsParametersCache_Get (supports ?w 0) = Inr NilParameters"
    and reg: "support_discovery (supports ?w 0) = Some 1"
    and own: "currentStrategy (heap ?w 0) = target_strategy NilParameters"
    and other: "currentStrategy (heap ?w 1) \<noteq> target_strategy NilParameters"
    by (simp_all add: example_defs target_strategy_def strategy_names)
  from reload_short_circuit_reads_support_discovery [OF sup get, of example_pkg] reg other
  have "reload example_pkg True 0 ?w \<noteq> (Returned None, emit (Ev_Get True) ?w)"
    by simp
  with sup get reg own other show ?thesis by blast
qed

section \<open>DiscoverServers\<close>

text \<open>
  C6. For every client address, when the active component is not nil and the servers it
  selects are not nil pointers, \<open>DiscoverServers\<close> returns exactly the
  \<open>EncodedServerEntry\<close> fields of the servers that \<open>SelectServers\<close> returned for that
  address, in the same order and number; when no server is selected (a nil or empty
  slice) the result is the empty slice, and in no case is it the nil slice. The result
  type has no error component.
\<close>

theorem DiscoverServers_encodes_selection:
  assumes comp: "discovery (heap w d) = Some c"
    and sel: "elems (select c clientIP) = map Some servers"
  shows "fst (DiscoverServers select d clientIP w)
           = Returned (Slice (map EncodedServerEntry servers)) \<and>
         (servers = [] \<longrightarrow> fst (DiscoverServers select d clientIP w) = Returned (Slice [])) \<and>
         fst (DiscoverServers select d clientIP w) \<noteq> Returned NilSlice"
  using comp sel
  by (simp add: DiscoverServers_def Let_def emit_simps encode_loop_map)

theorem DiscoverServers_encodes_selection_witness:
  "discovery (heap (running_world (Inr NilParameters)) 0) = Some 100 \<and>
   elems (example_select 100 [10, 0, 0, 1])
     = map Some [\<lparr>EncodedServerEntry = ''entry-a''\<rparr>, \<lparr>EncodedServerEntry = ''entry-b''\<rparr>] \<and>
   fst (DiscoverServers example_select 0 [10, 0, 0, 1] (running_world (Inr NilParameters)))
     = Returned (Slice [''entry-a'', ''entry-b''])"
proof -
  let ?w = "running_world (Inr NilParameters)"
  have comp: "discovery (heap ?w 0) = Some 100"
    by (simp add: example_defs)
  have sel: "elems (example_select 100 [10, 0, 0, 1])
     = map Some [\<lparr>EncodedServerEntry = ''entry-a''\<rparr>, \<lparr>EncodedServerEntry = ''entry-b''\<rparr>]"
    by (simp add: example_defs)
  from DiscoverServers_encodes_selection
         [where select = example_select and c = 100 and clientIP = "[10, 0, 0, 1]", OF comp sel]
  have "fst (DiscoverServers example_select 0 [10, 0, 0, 1] ?w)
          = Returned (Slice [''entry-a'', ''entry-b''])"
    by simp
  with comp sel show ?thesis by blast
qed

text \<open>
  C9. An orchestrator returned by \<open>newDiscovery\<close> has a component and a cancellation
  handle that are not nil. Every operation keeps this for every orchestrator: any
  \<open>reload\<close> on any receiver preserves it, a failed reload leaves both fields as they
  were, a successful rebuilding reload stores the component that \<open>NewDiscovery\<close> just
  returned and the handle of the context just made, and \<open>DiscoverServers\<close> on an
  initialized orchestrator reaches \<open>SelectServers\<close> on its component, leaves it
  initialized and can only panic on a nil server entry, never on a nil component.
\<close>

theorem component_never_nil:
  "(newDiscovery pkg support_ptr w = (Returned (Some d, e), w') \<longrightarrow> initialized d w') \<and>
   (initialized a w \<and> reload pkg reloadedTactics d w = (r, w') \<longrightarrow> initialized a w') \<and>
   (reload pkg reloadedTactics d w = (Returned (Some err), w') \<longrightarrow>
      discovery (heap w' d) = discovery (heap w d) \<and>
      cancelFunc (heap w' d) = cancelFunc (heap w d)) \<and>
   (reload pkg reloadedTactics d w = (Returned None, w') \<and> emitted w w' \<noteq> [Ev_Get True] \<longrightarrow>
      (\<exists>s ds c. support (heap w d) = Some s \<and>
              NewDiscovery pkg (nextCtx w) (PsinetDatabase_GetDiscoveryServers (supports w s)) ds
                = Inr c \<and>
              discovery (heap w' d) = Some c) \<and>
      cancelFunc (heap w' d) = Some (nextCtx w) \<and> nextCtx w' = Suc (nextCtx w)) \<and>
   (initialized d w \<longrightarrow>
      initialized d (snd (DiscoverServers select d clientIP w)) \<and>
      (\<exists>c. discovery (heap w d) = Some c \<and>
           Ev_SelectServers c clientIP
             \<in> set (emitted w (snd (DiscoverServers select d clientIP w))) \<and>
           (\<forall>pn. fst (DiscoverServers select d clientIP w) = Panicked pn \<longrightarrow>
                 None \<in> set (elems (select c clientIP)))))"
  (is "?new \<and> ?kept \<and> ?failed \<and> ?rebuilt \<and> ?query")
proof -
  have new: ?new
  proof
    assume new: "newDiscovery pkg support_ptr w = (Returned (Some d, e), w')"
    let ?w1 = "w\<lparr>heap := (heap w)(d := \<lparr>support = support_ptr, currentStrategy = '''',
                                       discovery = None, cancelFunc = None\<rparr>),
                nextRef := Suc d\<rparr>"
    from newDiscovery_returned [OF new]
    have run: "reload pkg False d ?w1 = (Returned None, w')" by (elim conjE)
    then obtain s where sup: "support (heap ?w1 d) = Some s"
      by (cases "support (heap ?w1 d)") (auto simp: reload_def)
    from reload_cases [OF run sup] have "emitted ?w1 w' \<noteq> [Ev_Get True]"
      by (auto simp: emitted_def emit_simps dest!: reload_init_cases reload_set_cases)
    from reload_rebuilt [OF run this] show "initialized d w'"
      by (auto simp: initialized_def)
  qed
  have kept: ?kept
    using reload_initialized by blast
  have failed: ?failed
  proof
    assume "reload pkg reloadedTactics d w = (Returned (Some err), w')"
    from reload_error_heap [OF this]
    show "discovery (heap w' d) = discovery (heap w d) \<and>
          cancelFunc (heap w' d) = cancelFunc (heap w d)" by simp
  qed
  have rebuilt: ?rebuilt
  proof
    assume "reload pkg reloadedTactics d w = (Returned None, w') \<and>
            emitted w w' \<noteq> [Ev_Get True]"
    then have run: "reload pkg reloadedTactics d w = (Returned None, w')"
      and more: "emitted w w' \<noteq> [Ev_Get True]" by simp_all
    from reload_rebuilt [OF run more]
    show "(\<exists>s ds c. support (heap w d) = Some s \<and>
                NewDiscovery pkg (nextCtx w) (PsinetDatabase_GetDiscoveryServers (supports w s)) ds
                  = Inr c \<and>
                discovery (heap w' d) = Some c) \<and>
        cancelFunc (heap w' d) = Some (nextCtx w) \<and> nextCtx w' = Suc (nextCtx w)"
      by auto
  qed
  have query: ?query
  proof
    assume init: "initialized d w"
    then obtain c where c: "discovery (heap w d) = Some c"
      by (auto simp: initialized_def)
    have "heap (snd (DiscoverServers select d clientIP w)) = heap w"
      by (simp add: DiscoverServers_def Let_def emit_simps split: option.split result.split)
    with init have 1: "initialized d (snd (DiscoverServers select d clientIP w))"
      by (simp add: initialized_def)
    have 2: "Ev_SelectServers c clientIP
               \<in> set (emitted w (snd (DiscoverServers select d clientIP w)))"
      using c
      by (simp add: DiscoverServers_def Let_def emit_simps emitted_def split: result.split)
    have 3: "\<forall>pn. fst (DiscoverServers select d clientIP w) = Panicked pn \<longrightarrow>
                   None \<in> set (elems (select c clientIP))"
      using c
      by (auto simp: DiscoverServers_def Let_def emit_simps split: result.splits
               dest: encode_loop_panic)
    from 1 2 3 c
    show "initialized d (snd (DiscoverServers select d clientIP w)) \<and>
        (\<exists>c. discovery (heap w d) = Some c \<and>
             Ev_SelectServers c clientIP
               \<in> set (emitted w (snd (DiscoverServers select d clientIP w))) \<and>
             (\<forall>pn. fst (DiscoverServers select d clientIP w) = Panicked pn \<longrightarrow>
                   None \<in> set (elems (select c clientIP))))"
      by blast
  qed
  from new kept failed rebuilt query show ?thesis by (intro conjI)
qed

theorem component_never_nil_witness:
  "newDiscovery example_pkg (Some 0) (empty_world (Inr NilParameters))
     = (Returned (Some 0, None),
        snd (newDiscovery example_pkg (Some 0) (empty_world (Inr NilParameters)))) \<and>
   initialized 0 (snd (newDiscovery example_pkg (Some 0) (empty_world (Inr NilParameters))))"
proof -
  let ?w = "empty_world (Inr NilParameters)"
  have new: "newDiscovery example_pkg (Some 0) ?w
               = (Returned (Some 0, None), snd (newDiscovery example_pkg (Some 0) ?w))"
    by (simp add: newDiscovery_def reload_defs example_defs)
  from component_never_nil [of example_pkg "Some 0" ?w 0 None
      "snd (newDiscovery example_pkg (Some 0) ?w)"] new
  have "initialized 0 (snd (newDiscovery example_pkg (Some 0) ?w))"
    by blast
  with new show ?thesis by blast
qed

text \<open>
  C10. \<open>DiscoverServers\<close> is read-only on the orchestrator state: whatever the client
  address, the component it selects from and the way the call ends, the heap of
  orchestrators after the call is the heap before it, so the current strategy name, the
  active component reference and the cancellation handle of the receiver are the same
  values; the support services and the two allocation counters are untouched as well.
\<close>

theorem DiscoverServers_read_only:
  "heap (snd (DiscoverServers select d clientIP w)) = heap w \<and>
   currentStrategy (heap (snd (DiscoverServers select d clientIP w)) d)
     = currentStrategy (heap w d) \<and>
   discovery (heap (snd (DiscoverServers select d clientIP w)) d) = discovery (heap w d) \<and>
   cancelFunc (heap (snd (DiscoverServers select d clientIP w)) d) = cancelFunc (heap w d) \<and>
   supports (snd (DiscoverServers select d clientIP w)) = supports w \<and>
   nextRef (snd (DiscoverServers select d clientIP w)) = nextRef w \<and>
   nextCtx (snd (DiscoverServers select d clientIP w)) = nextCtx w"
  by (simp add: DiscoverServers_def Let_def emit_simps split: option.split result.split)

section \<open>Queries racing one reload see whole states\<close>

text \<open>
  C7. In every state that any schedule of one reloader and any number of queries can
  reach, for every query: while it holds the read lock the three fields of the
  orchestrator are together those before the reload or together those after it, never a
  mixture of a new component with an old strategy name; no step of any goroutine changes
  them while the query holds the lock, so the query sees one component for its whole
  duration; and what the query returns is what \<open>DiscoverServers\<close> returns for its client
  address on the orchestrator as it was before the reload, or on the orchestrator as it
  is after it.
\<close>

theorem queries_observe_whole_state:
  assumes s: "s = run select schedule (start before c ctx strategy ips)"
    and i: "i < length ips"
  shows "(holds_read (queries s ! i) \<longrightarrow>
            orch s = before \<or> orch s = swapped before c ctx strategy) \<and>
         (holds_read (queries s ! i) \<longrightarrow> orch (step select t s) = orch s) \<and>
         (\<forall>out. q_returned (queries s ! i) = Some out \<longrightarrow>
            (\<forall>w d. heap w d = before \<longrightarrow>
                   out = fst (DiscoverServers select d (ips ! i) w)) \<or>
            (\<forall>w d. heap w d = swapped before c ctx strategy \<longrightarrow>
                   out = fst (DiscoverServers select d (ips ! i) w)))"
proof -
  have I: "sys_inv select before c ctx strategy ips s"
    unfolding s by (rule sys_inv_run [OF sys_inv_start])
  then have len: "length (queries s) = length ips"
    and ok: "query_ok select before c (ips ! i) (queries s ! i)"
    and cnt: "read_locks s = length (filter holds_read (queries s))"
    and wl: "write_locked s \<longleftrightarrow> r_pc s \<noteq> At_Lock \<and> r_pc s \<noteq> Reload_Done"
    and excl: "write_locked s \<longrightarrow> read_locks s = 0"
    and st: "orch s = stage before c ctx strategy (r_pc s)"
    using i unfolding sys_inv_def by blast+
  have free: "\<not> write_locked s \<and> 0 < read_locks s" if "holds_read (queries s ! i)"
    using holder_counted [of i "queries s" holds_read] that i len cnt excl by auto
  have whole: "holds_read (queries s ! i) \<longrightarrow>
                 orch s = before \<or> orch s = swapped before c ctx strategy"
    using free wl st by auto
  have stable: "holds_read (queries s ! i) \<longrightarrow> orch (step select t s) = orch s"
  proof
    assume "holds_read (queries s ! i)"
    from free [OF this] wl have "r_pc s = At_Lock \<or> r_pc s = Reload_Done" "0 < read_locks s"
      by auto
    then have "reload_step s = s"
      by (auto simp: reload_step_def)
    then show "orch (step select t s) = orch s"
      by (cases t) (simp_all add: query_step_orch)
  qed
  have result: "\<forall>out. q_returned (queries s ! i) = Some out \<longrightarrow>
            (\<forall>w d. heap w d = before \<longrightarrow>
                   out = fst (DiscoverServers select d (ips ! i) w)) \<or>
            (\<forall>w d. heap w d = swapped before c ctx strategy \<longrightarrow>
                   out = fst (DiscoverServers select d (ips ! i) w))"
  proof (intro allI impI)
    fix out assume "q_returned (queries s ! i) = Some out"
    with ok have "out = answer select (discovery before) (ips ! i) \<or>
                  out = answer select (Some c) (ips ! i)"
      by (auto simp: query_ok_def split: query_pc.splits)
    then show "(\<forall>w d. heap w d = before \<longrightarrow>
                   out = fst (DiscoverServers select d (ips ! i) w)) \<or>
            (\<forall>w d. heap w d = swapped before c ctx strategy \<longrightarrow>
                   out = fst (DiscoverServers select d (ips ! i) w))"
      by (auto simp: DiscoverServers_answer swapped_def)
  qed
  from whole stable result show ?thesis by (intro conjI)
qed

theorem queries_observe_whole_state_witness:
  "(0::nat) < length [[10, 0, 0, 1], [10, 0, 0, 2 :: 8 word]] \<and>
   holds_read (queries (example_race [Query 0, Reloader, Query 0]) ! 0) \<and>
   (orch (example_race [Query 0, Reloader, Query 0]) = example_before \<or>
    orch (example_race [Query 0, Reloader, Query 0])
      = swapped example_before 101 1 ''consistent'') \<and>
   orch (step example_select Reloader (example_race [Query 0, Reloader, Query 0]))
     = orch (example_race [Query 0, Reloader, Query 0])"
proof -
  let ?s = "example_race [Query 0, Reloader, Query 0]"
  have s: "?s = run example_select [Query 0, Reloader, Query 0]
                  (start example_before 101 1 ''consistent'' [[10, 0, 0, 1], [10, 0, 0, 2]])"
    by (simp add: example_race_def)
  have i: "(0::nat) < length [[10, 0, 0, 1], [10, 0, 0, 2 :: 8 word]]"
    by simp
  have h: "holds_read (queries ?s ! 0)"
    by (simp add: system_defs example_select_def)
  from queries_observe_whole_state [OF s i, of Reloader] h
  have "(orch ?s = example_before \<or> orch ?s = swapped example_before 101 1 ''consistent'') \<and>
        orch (step example_select Reloader ?s) = orch ?s"
    by blast
  with i h show ?thesis by blast
qed

end
